theory Spec2Isabelle
  imports Main
begin

section \<open>Text primitives of the scraper\<close>

text \<open>
  The scraper (\<^verbatim>\<open>university_scraper.py\<close>) works on Python strings. They are modelled as
  \<^typ>\<open>string\<close>, one \<^typ>\<open>char\<close> per code point, for text in the ASCII range: the
  character classes below are the ASCII part of Python's \<^verbatim>\<open>str.isspace\<close> (which is also
  what \<^verbatim>\<open>\s\<close> matches in \<^verbatim>\<open>re\<close>), \<^verbatim>\<open>str.isupper\<close>, \<^verbatim>\<open>str.lower\<close> and so on.
  The missing-value sentinel is the string \<^verbatim>\<open>"N/A"\<close>.
\<close>

definition NA :: string where
  "NA = ''N/A''"

definition is_space :: "char \<Rightarrow> bool" where
  "is_space c = (let n = (of_char c :: nat) in (9 \<le> n \<and> n \<le> 13) \<or> (28 \<le> n \<and> n \<le> 32))"

definition is_upper :: "char \<Rightarrow> bool" where
  "is_upper c = (let n = (of_char c :: nat) in 65 \<le> n \<and> n \<le> 90)"

definition is_lower :: "char \<Rightarrow> bool" where
  "is_lower c = (let n = (of_char c :: nat) in 97 \<le> n \<and> n \<le> 122)"

definition is_digit :: "char \<Rightarrow> bool" where
  "is_digit c = (let n = (of_char c :: nat) in 48 \<le> n \<and> n \<le> 57)"

definition char_lower :: "char \<Rightarrow> char" where
  "char_lower c = (if is_upper c then char_of ((of_char c :: nat) + 32) else c)"

definition char_upper :: "char \<Rightarrow> char" where
  "char_upper c = (if is_lower c then char_of ((of_char c :: nat) - 32) else c)"

text \<open>\<^verbatim>\<open>s.lower()\<close>\<close>

definition lower :: "string \<Rightarrow> string" where
  "lower s = map char_lower s"

text \<open>
  \<^verbatim>\<open>s.rstrip(chars)\<close> and \<^verbatim>\<open>s.strip(chars)\<close>, the characters to remove given as a
  predicate; \<^verbatim>\<open>s.strip()\<close> removes leading and trailing whitespace.
\<close>

definition rstrip_where :: "(char \<Rightarrow> bool) \<Rightarrow> string \<Rightarrow> string" where
  "rstrip_where P s = rev (dropWhile P (rev s))"

definition strip_where :: "(char \<Rightarrow> bool) \<Rightarrow> string \<Rightarrow> string" where
  "strip_where P s = rstrip_where P (dropWhile P s)"

definition strip :: "string \<Rightarrow> string" where
  "strip s = strip_where is_space s"

text \<open>
  \<^verbatim>\<open>re.sub(r"\s+", " ", s)\<close>: every maximal run of whitespace becomes one space.
\<close>

function collapse_ws :: "string \<Rightarrow> string" where
  "collapse_ws [] = []"
| "collapse_ws (c # cs) =
     (if is_space c then CHR '' '' # collapse_ws (dropWhile is_space cs)
      else c # collapse_ws cs)"
  by pat_completeness auto
termination
  by (relation "measure length") (auto simp: length_dropWhile_le less_Suc_eq_le)

text \<open>
  \<^verbatim>\<open>clean_text(value)\<close>. The argument is \<^verbatim>\<open>None\<close> or a value whose \<^verbatim>\<open>str()\<close> is the
  given string.
\<close>

definition clean_text :: "string option \<Rightarrow> string" where
  "clean_text v =
     (case v of
        None \<Rightarrow> NA
      | Some s \<Rightarrow> (let text = strip (collapse_ws s) in if text \<noteq> [] then text else NA))"

text \<open>
  What a cleaned text looks like: every whitespace character in it is a single space, and
  no two of them are adjacent.
\<close>

fun single_spaced :: "string \<Rightarrow> bool" where
  "single_spaced [] = True"
| "single_spaced (c # cs) =
     ((if is_space c
       then c = CHR '' '' \<and> (case cs of [] \<Rightarrow> True | d # _ \<Rightarrow> \<not> is_space d)
       else True) \<and> single_spaced cs)"

text \<open>\<^verbatim>\<open>s.split()\<close>: the maximal runs of non-whitespace characters.\<close>

function py_split :: "string \<Rightarrow> string list" where
  "py_split s =
     (case dropWhile is_space s of
        [] \<Rightarrow> []
      | c # cs \<Rightarrow> takeWhile (\<lambda>x. \<not> is_space x) (c # cs) # py_split (dropWhile (\<lambda>x. \<not> is_space x) cs))"
  by pat_completeness auto
termination
proof (relation "measure length", goal_cases)
  case 1
  show ?case by simp
next
  case (2 s c cs)
  have "length (dropWhile (\<lambda>x. \<not> is_space x) cs) \<le> length cs"
    by (rule length_dropWhile_le)
  moreover have "length (c # cs) \<le> length s"
    using length_dropWhile_le [of is_space s] 2 by simp
  ultimately show ?case by simp
qed

declare py_split.simps [simp del]

text \<open>\<^verbatim>\<open>sep.join(xs)\<close>\<close>

fun join :: "string \<Rightarrow> string list \<Rightarrow> string" where
  "join sep [] = []"
| "join sep [x] = x"
| "join sep (x # y # ys) = x @ sep @ join sep (y # ys)"

text \<open>\<^verbatim>\<open>s.split(sep)\<close> for a one-character separator: always at least one piece.\<close>

fun split_on :: "char \<Rightarrow> string \<Rightarrow> string list" where
  "split_on sep [] = [[]]"
| "split_on sep (c # cs) =
     (if c = sep then [] # split_on sep cs
      else (case split_on sep cs of
              [] \<Rightarrow> [[c]]
            | w # ws \<Rightarrow> (c # w) # ws))"

text \<open>\<^verbatim>\<open>s.startswith(p)\<close>, \<^verbatim>\<open>s.endswith(p)\<close> and \<^verbatim>\<open>p in s\<close>.\<close>

definition startswith :: "string \<Rightarrow> string \<Rightarrow> bool" where
  "startswith s p = (take (length p) s = p)"

definition endswith :: "string \<Rightarrow> string \<Rightarrow> bool" where
  "endswith s p = (length p \<le> length s \<and> drop (length s - length p) s = p)"

fun contains :: "string \<Rightarrow> string \<Rightarrow> bool" where
  "contains [] p = (p = [])"
| "contains (c # cs) p = (startswith (c # cs) p \<or> contains cs p)"

text \<open>\<^verbatim>\<open>str.isupper\<close>: no lower-case letter and at least one upper-case letter.\<close>

definition isupper :: "string \<Rightarrow> bool" where
  "isupper w = (list_all (\<lambda>c. \<not> is_lower c) w \<and> list_ex is_upper w)"

text \<open>\<^verbatim>\<open>str.capitalize\<close>: first character upper-cased, the rest lower-cased.\<close>

fun capitalize :: "string \<Rightarrow> string" where
  "capitalize [] = []"
| "capitalize (c # cs) = char_upper c # map char_lower cs"

subsection \<open>Title casing\<close>

definition COUNTRY_ALIASES :: "(string \<times> string) list" where
  "COUNTRY_ALIASES =
     [(''Us'', ''United States''),
      (''U.S.'', ''United States''),
      (''Usa'', ''United States''),
      (''Uk'', ''United Kingdom''),
      (''England'', ''United Kingdom'')]"

definition small_words :: "string list" where
  "small_words =
     [''and'', ''or'', ''of'', ''the'', ''in'', ''on'', ''for'', ''to'', ''at'', ''by'', ''with'']"

text \<open>The body of the loop of \<^verbatim>\<open>smart_title_case\<close> for the word at index \<open>i\<close>.\<close>

definition title_word :: "nat \<Rightarrow> string \<Rightarrow> string" where
  "title_word i word =
     (if isupper word \<and> length word \<le> 5 then word
      else if i > 0 \<and> lower word \<in> set small_words then lower word
      else capitalize word)"

definition smart_title_case :: "string \<Rightarrow> string" where
  "smart_title_case t =
     (let text = clean_text (Some t) in
      if text = NA then text
      else
        let titled = join '' '' (map (\<lambda>(i, word). title_word i word) (enumerate 0 (py_split text)))
        in (case map_of COUNTRY_ALIASES titled of Some a \<Rightarrow> a | None \<Rightarrow> titled))"

section \<open>Source B: the location cell of the encyclopedia infobox\<close>

text \<open>
  The parsed page is represented by what the function reads of it: the infobox, if there is
  one, as the list of its rows in document order, each row with the text of its \<^verbatim>\<open>th\<close> and
  of its \<^verbatim>\<open>td\<close> (\<open>None\<close> when the row has no such element).
\<close>

type_synonym infobox_row = "string option \<times> string option"

text \<open>
  \<^verbatim>\<open>re.sub(r"\[[^\]]*\]", "", s)\<close>: an opening bracket is removed together with everything up
  to the next closing bracket; an opening bracket with no closing bracket after it stays.
\<close>

function strip_brackets :: "string \<Rightarrow> string" where
  "strip_brackets [] = []"
| "strip_brackets (c # cs) =
     (if c = CHR ''[''
      then (case dropWhile (\<lambda>x. x \<noteq> CHR '']'') cs of
              [] \<Rightarrow> c # strip_brackets cs
            | _ # rest \<Rightarrow> strip_brackets rest)
      else c # strip_brackets cs)"
  by pat_completeness auto
termination
proof (relation "measure length", goal_cases)
  case 1
  show ?case by simp
next
  case (2 c cs)
  show ?case by simp
next
  case (3 c cs x rest)
  have "length (dropWhile (\<lambda>x. x \<noteq> CHR '']'') cs) \<le> length cs"
    by (rule length_dropWhile_le)
  with 3 show ?case by simp
next
  case (4 c cs)
  show ?case by simp
qed

text \<open>\<^verbatim>\<open>re.search(r"\d", part)\<close>\<close>

definition has_digit :: "string \<Rightarrow> bool" where
  "has_digit part = list_ex is_digit part"

text \<open>
  \<^verbatim>\<open>re.search(r"\b[NSWE]\b", part)\<close>: one of the four letters with no word character
  (letter, digit, underscore) directly before or after it. The flag says whether the
  previous character was a word character.
\<close>

definition is_word_char :: "char \<Rightarrow> bool" where
  "is_word_char c = (is_upper c \<or> is_lower c \<or> is_digit c \<or> c = CHR ''_'')"

fun lone_compass_from :: "bool \<Rightarrow> string \<Rightarrow> bool" where
  "lone_compass_from prev [] = False"
| "lone_compass_from prev (c # cs) =
     ((\<not> prev \<and> c \<in> set ''NSWE'' \<and> (case cs of [] \<Rightarrow> True | d # _ \<Rightarrow> \<not> is_word_char d))
      \<or> lone_compass_from (is_word_char c) cs)"

definition has_lone_compass :: "string \<Rightarrow> bool" where
  "has_lone_compass part = lone_compass_from False part"

text \<open>The first loop of \<^verbatim>\<open>extract_city_country_from_wikipedia\<close>: the location row.\<close>

fun find_location_raw :: "infobox_row list \<Rightarrow> string" where
  "find_location_raw [] = NA"
| "find_location_raw ((header, cell) # rows) =
     (case (header, cell) of
        (Some h, Some c) \<Rightarrow>
          (if lower (clean_text (Some h)) \<in> {''location'', ''address''}
           then clean_text (Some c)
           else find_location_raw rows)
      | _ \<Rightarrow> find_location_raw rows)"

text \<open>The second loop: which of the cleaned comma-separated parts are kept.\<close>

definition keep_part :: "string \<Rightarrow> bool" where
  "keep_part part = (part \<noteq> NA \<and> \<not> has_digit part \<and> \<not> has_lone_compass part)"

definition city_country_of_location :: "string \<Rightarrow> string \<times> string" where
  "city_country_of_location location_raw =
     (if location_raw = NA then (NA, NA)
      else
        let cleaned = strip_brackets location_raw;
            parts = map (\<lambda>p. clean_text (Some p)) (split_on CHR '','' cleaned);
            filtered_parts = filter keep_part parts
        in (case filtered_parts of
              [] \<Rightarrow> (NA, NA)
            | [only] \<Rightarrow> (smart_title_case only, NA)
            | first # _ \<Rightarrow> (smart_title_case first, smart_title_case (last filtered_parts))))"

definition extract_city_country_from_wikipedia :: "infobox_row list option \<Rightarrow> string \<times> string" where
  "extract_city_country_from_wikipedia infobox =
     (case infobox of
        None \<Rightarrow> (NA, NA)
      | Some rows \<Rightarrow> city_country_of_location (find_location_raw rows))"

section \<open>Course pages\<close>

subsection \<open>Badges and highlights\<close>

text \<open>
  A badge element (\<^verbatim>\<open>div.single-badge\<close>) is represented by the text of its title element
  and the text of its value element, a highlight block (\<^verbatim>\<open>div.prog-view-highli\<close>) by the
  text of its \<^verbatim>\<open>h3\<close> and of its \<^verbatim>\<open>p\<close>; \<open>None\<close> when the element is missing. The lists are
  in document order.
\<close>

type_synonym badge_elem = "string option \<times> string option"
type_synonym highlight_block = "string option \<times> string option"

text \<open>Lines 313-314: the value stored for a badge with cleaned title and cleaned value.\<close>

definition badge_value :: "string \<Rightarrow> string \<Rightarrow> string" where
  "badge_value title val =
     (if val \<noteq> NA \<and> title \<noteq> NA \<and> endswith (lower val) (lower title)
      then clean_text (Some (take (length val - length title) val))
      else val)"

fun badges_loop :: "(string \<rightharpoonup> string) \<Rightarrow> badge_elem list \<Rightarrow> (string \<rightharpoonup> string)" where
  "badges_loop badges [] = badges"
| "badges_loop badges ((title_tag, value_tag) # rest) =
     (case (title_tag, value_tag) of
        (Some t, Some v) \<Rightarrow>
          (let title = clean_text (Some t);
               val = badge_value title (clean_text (Some v))
           in badges_loop (badges(lower title \<mapsto> val)) rest)
      | _ \<Rightarrow> badges_loop badges rest)"

definition extract_badges :: "badge_elem list \<Rightarrow> (string \<rightharpoonup> string)" where
  "extract_badges elems = badges_loop Map.empty elems"

fun highlights_loop :: "(string \<rightharpoonup> string) \<Rightarrow> highlight_block list \<Rightarrow> (string \<rightharpoonup> string)" where
  "highlights_loop highlights [] = highlights"
| "highlights_loop highlights ((key_tag, value_tag) # rest) =
     (case (key_tag, value_tag) of
        (Some k, Some v) \<Rightarrow>
          (let key = lower (clean_text (Some k));
               val = clean_text (Some v)
           in if key \<noteq> [] \<and> highlights key = None \<and> val \<noteq> NA
              then highlights_loop (highlights(key \<mapsto> val)) rest
              else highlights_loop highlights rest)
      | _ \<Rightarrow> highlights_loop highlights rest)"

definition extract_highlights :: "highlight_block list \<Rightarrow> (string \<rightharpoonup> string)" where
  "extract_highlights blocks = highlights_loop Map.empty blocks"

subsection \<open>Eligibility\<close>

text \<open>
  An admissions block (\<^verbatim>\<open>div.univ-entry\<close>) is represented by the text of its label and of
  its value element; a section heading (\<^verbatim>\<open>h2\<close>, \<^verbatim>\<open>h3\<close>, \<^verbatim>\<open>h4\<close>) by its text and the text
  of the next \<^verbatim>\<open>p\<close>, \<^verbatim>\<open>li\<close> or \<^verbatim>\<open>div\<close> after it, if there is one.
\<close>

type_synonym entry_block = "string option \<times> string option"
type_synonym section_heading = "string \<times> string option"

fun eligibility_pairs :: "string list \<Rightarrow> entry_block list \<Rightarrow> string list" where
  "eligibility_pairs pairs [] = pairs"
| "eligibility_pairs pairs ((label_tag, value_tag) # rest) =
     (let label = (case label_tag of Some t \<Rightarrow> clean_text (Some t) | None \<Rightarrow> NA);
          val = (case value_tag of Some t \<Rightarrow> clean_text (Some t) | None \<Rightarrow> NA);
          pairs' = (if label \<noteq> NA \<and> val \<noteq> NA then pairs @ [label @ '': '' @ val] else pairs)
      in if length pairs' \<ge> 5 then pairs' else eligibility_pairs pairs' rest)"

fun eligibility_from_headings :: "section_heading list \<Rightarrow> string" where
  "eligibility_from_headings [] = NA"
| "eligibility_from_headings ((heading, candidate) # rest) =
     (let heading_text = lower (clean_text (Some heading)) in
      if contains heading_text ''admission'' \<or> contains heading_text ''eligibility''
         \<or> contains heading_text ''entry requirement''
      then (case candidate of
              Some t \<Rightarrow>
                (let snippet = clean_text (Some t) in
                 if snippet \<noteq> NA then take 220 snippet else eligibility_from_headings rest)
            | None \<Rightarrow> eligibility_from_headings rest)
      else eligibility_from_headings rest)"

definition extract_eligibility :: "entry_block list \<Rightarrow> section_heading list \<Rightarrow> string" where
  "extract_eligibility entries headings =
     (let pairs = eligibility_pairs [] entries in
      if pairs \<noteq> [] then join ''; '' pairs else eligibility_from_headings headings)"

subsection \<open>Level\<close>

definition LEVEL_BY_SEGMENT :: "(string \<times> string) list" where
  "LEVEL_BY_SEGMENT =
     [(''undergrad'', ''Bachelor''),
      (''bachelors'', ''Bachelor''),
      (''masters'', ''Master''),
      (''postgrad'', ''Master''),
      (''phd'', ''PhD''),
      (''mba'', ''MBA''),
      (''diploma'', ''Diploma''),
      (''cert'', ''Certificate''),
      (''foundation'', ''Foundation'')]"

text \<open>
  \<^verbatim>\<open>urlparse(url).path\<close> of the standard library (\<^verbatim>\<open>urllib.parse\<close>), for URLs without
  brackets in the host (for those the library may raise an error). As \<^verbatim>\<open>urlsplit\<close> does,
  the leading characters up to the space (code points 0 to 32) are stripped and every TAB,
  CR and LF is deleted; then the scheme (letters, digits and \<^verbatim>\<open>+-.\<close> before the first
  colon, starting with a letter) is split off, then the host after \<^verbatim>\<open>//\<close> up to the first
  of \<^verbatim>\<open>/?#\<close>, then the fragment after \<^verbatim>\<open>#\<close>, then the query after \<^verbatim>\<open>?\<close>, and for the
  schemes that have them the parameters after a \<^verbatim>\<open>;\<close> in the last path segment.
\<close>

definition is_c0_control_or_space :: "char \<Rightarrow> bool" where
  "is_c0_control_or_space c = ((of_char c :: nat) \<le> 32)"

definition is_unsafe_url_char :: "char \<Rightarrow> bool" where
  "is_unsafe_url_char c = (c \<in> set [CHR 0x09, CHR 0x0D, CHR 0x0A])"

definition url_sanitize :: "string \<Rightarrow> string" where
  "url_sanitize url =
     filter (\<lambda>c. \<not> is_unsafe_url_char c) (dropWhile is_c0_control_or_space url)"

definition is_scheme_char :: "char \<Rightarrow> bool" where
  "is_scheme_char c = (is_upper c \<or> is_lower c \<or> is_digit c \<or> c \<in> set ''+-.'')"

definition uses_params :: "string list" where
  "uses_params =
     [[], ''ftp'', ''hdl'', ''prospero'', ''http'', ''imap'', ''https'', ''shttp'', ''rtsp'',
      ''rtsps'', ''rtspu'', ''sip'', ''sips'', ''mms'', ''sftp'', ''tel'']"

definition split_scheme :: "string \<Rightarrow> string \<times> string" where
  "split_scheme url =
     (let head = takeWhile (\<lambda>c. c \<noteq> CHR '':'') url in
      if length head < length url \<and> head \<noteq> [] \<and> (is_upper (hd head) \<or> is_lower (hd head))
         \<and> list_all is_scheme_char head
      then (lower head, drop (length head + 1) url)
      else ([], url))"

definition split_params :: "string \<Rightarrow> string" where
  "split_params path =
     (let last_segment = rev (takeWhile (\<lambda>c. c \<noteq> CHR ''/'') (rev path))
      in take (length path - length last_segment) path
         @ takeWhile (\<lambda>c. c \<noteq> CHR '';'') last_segment)"

definition urlparse_path :: "string \<Rightarrow> string" where
  "urlparse_path url =
     (let (scheme, url1) = split_scheme (url_sanitize url);
          url2 = (if take 2 url1 = ''//''
                  then dropWhile (\<lambda>c. c \<notin> set ''/?#'') (drop 2 url1)
                  else url1);
          url3 = takeWhile (\<lambda>c. c \<noteq> CHR ''#'') url2;
          url4 = takeWhile (\<lambda>c. c \<noteq> CHR ''?'') url3
      in if scheme \<in> set uses_params then split_params url4 else url4)"

definition url_level_segment :: "string \<Rightarrow> string" where
  "url_level_segment course_url =
     (let path_parts = split_on CHR ''/'' (strip_where (\<lambda>c. c = CHR ''/'') (urlparse_path course_url))
      in if length path_parts \<ge> 3 then lower (path_parts ! 2) else [])"

definition normalize_level :: "string \<Rightarrow> string \<Rightarrow> string" where
  "normalize_level raw_level course_url =
     (let val = lower (clean_text (Some raw_level)) in
      if contains val ''undergraduate'' \<or> contains val ''bachelor'' then ''Bachelor''
      else if contains val ''postgraduate'' \<or> contains val ''master'' then ''Master''
      else if contains val ''phd'' \<or> contains val ''doctoral'' then ''PhD''
      else if contains val ''diploma'' then ''Diploma''
      else if contains val ''certificate'' then ''Certificate''
      else if contains val ''mba'' then ''MBA''
      else (case map_of LEVEL_BY_SEGMENT (url_level_segment course_url) of
              Some level \<Rightarrow> level
            | None \<Rightarrow> NA))"

subsection \<open>Discipline\<close>

text \<open>
  The substitution in \<^verbatim>\<open>guess_discipline\<close> removes, at the start of the name and ignoring
  case, the first alternative of the list that matches, then whitespace, then an optional
  \<^verbatim>\<open>of\<close> or \<^verbatim>\<open>in\<close>, then whitespace. Everything after the first group can match the empty
  string, so the first alternative that matches is the one taken and each later part takes
  as much as it can.
\<close>

definition degree_prefixes :: "string list" where
  "degree_prefixes =
     [''Bachelor'', ''Master'', ''BA'', ''BSc'', ''MSc'', ''MA'', ''PhD'', ''Doctor of'', ''Diploma in'']"

definition startswith_ci :: "string \<Rightarrow> string \<Rightarrow> bool" where
  "startswith_ci s p = (length p \<le> length s \<and> lower (take (length p) s) = lower p)"

fun drop_first_prefix :: "string list \<Rightarrow> string \<Rightarrow> string option" where
  "drop_first_prefix [] s = None"
| "drop_first_prefix (p # ps) s =
     (if startswith_ci s p then Some (drop (length p) s) else drop_first_prefix ps s)"

definition strip_degree_prefix :: "string \<Rightarrow> string" where
  "strip_degree_prefix course_name =
     (case drop_first_prefix degree_prefixes course_name of
        None \<Rightarrow> course_name
      | Some rest \<Rightarrow>
          (let r1 = dropWhile is_space rest;
               r2 = (if startswith_ci r1 ''of'' \<or> startswith_ci r1 ''in'' then drop 2 r1 else r1)
           in dropWhile is_space r2))"

definition url_slug :: "string \<Rightarrow> string" where
  "url_slug course_url =
     map (\<lambda>c. if c = CHR ''-'' then CHR '' '' else c)
       (clean_text (Some (last (split_on CHR ''/'' (rstrip_where (\<lambda>c. c = CHR ''/'') course_url)))))"

definition guess_discipline :: "string \<Rightarrow> string \<Rightarrow> string" where
  "guess_discipline name course_url =
     (let course_name = clean_text (Some name);
          possible = strip (strip_degree_prefix course_name)
      in if course_name \<noteq> NA \<and> possible \<noteq> [] \<and> length (py_split possible) \<le> 6
         then smart_title_case possible
         else smart_title_case (url_slug course_url))"

subsection \<open>One course page\<close>

text \<open>
  \<^verbatim>\<open>a or b\<close> on values that are \<^verbatim>\<open>None\<close> or strings: the first one unless it is \<^verbatim>\<open>None\<close>
  or the empty string.
\<close>

definition py_or :: "string option \<Rightarrow> string option \<Rightarrow> string option" where
  "py_or a b = (case a of None \<Rightarrow> b | Some s \<Rightarrow> if s \<noteq> [] then a else b)"

record course_page =
  heading :: "string option"
  badge_elems :: "badge_elem list"
  highlight_blocks :: "highlight_block list"
  entry_blocks :: "entry_block list"
  section_headings :: "section_heading list"

record course =
  course_university_id :: string
  course_name :: string
  level :: string
  discipline :: string
  duration :: string
  fees :: string
  eligibility :: string

text \<open>
  \<^verbatim>\<open>scrape_course\<close>; the first argument is the parsed page that the fetch of \<^verbatim>\<open>course_url\<close>
  gave, \<open>None\<close> when it gave nothing.
\<close>

definition scrape_course :: "course_page option \<Rightarrow> string \<Rightarrow> string \<Rightarrow> course option" where
  "scrape_course html course_url university_id =
     (case html of
        None \<Rightarrow> None
      | Some soup \<Rightarrow>
          (let name = (case heading soup of Some h \<Rightarrow> clean_text (Some h) | None \<Rightarrow> NA);
               badges = extract_badges (badge_elems soup);
               highlights = extract_highlights (highlight_blocks soup);
               lvl = normalize_level
                       (case highlights ''study level'' of Some l \<Rightarrow> l | None \<Rightarrow> NA) course_url;
               disc = clean_text
                       (py_or (highlights ''main subject'')
                         (py_or (badges ''main subject area'')
                           (Some (guess_discipline name course_url))));
               dur = clean_text (py_or (badges ''programme duration'') (badges ''duration''));
               fee = clean_text (py_or (badges ''tuition fee/year'') (badges ''tuition fee''));
               elig = clean_text
                        (Some (extract_eligibility (entry_blocks soup) (section_headings soup)))
           in Some \<lparr>course_university_id = university_id,
                    course_name = name,
                    level = lvl,
                    discipline = smart_title_case disc,
                    duration = dur,
                    fees = fee,
                    eligibility = elig\<rparr>))"

section \<open>The run\<close>

definition MIN_COURSES_PER_UNIVERSITY :: nat where
  "MIN_COURSES_PER_UNIVERSITY = 5"

definition TARGET_COUNTRY :: string where
  "TARGET_COUNTRY = ''India''"

record university =
  university_id :: string
  university_name :: string
  country :: string
  city :: string
  website :: string

record course_row = course +
  course_id :: string

text \<open>
  The identifiers \<^verbatim>\<open>f"U{idx:03d}"\<close> and \<^verbatim>\<open>f"C{i + 1:04d}"\<close>: the decimal digits of the
  number, padded with zeros on the left to three and to four characters.
\<close>

definition digit_char :: "nat \<Rightarrow> char" where
  "digit_char d = char_of (48 + d)"

fun str_nat :: "nat \<Rightarrow> string" where
  "str_nat n = (if n < 10 then [digit_char n] else str_nat (n div 10) @ [digit_char (n mod 10)])"

declare str_nat.simps [simp del]

definition zero_pad :: "nat \<Rightarrow> string \<Rightarrow> string" where
  "zero_pad width s = replicate (width - length s) CHR ''0'' @ s"

definition format_university_id :: "nat \<Rightarrow> string" where
  "format_university_id idx = ''U'' @ zero_pad 3 (str_nat idx)"

definition format_course_id :: "nat \<Rightarrow> string" where
  "format_course_id i = ''C'' @ zero_pad 4 (str_nat i)"

text \<open>
  What the run observes for one configured target, once its ranking-site page has been
  fetched: the partial record of Source A
  (\<^verbatim>\<open>extract_university_meta_from_topuniversities\<close>: name, city, country), the partial
  record of Source B (\<^verbatim>\<open>extract_website_from_wikipedia\<close>: name, city, country, website),
  and the program links of \<^verbatim>\<open>extract_program_links\<close> in discovery order, each with what
  scraping it gives: an exception, or the page that \<^verbatim>\<open>scrape_course\<close> works on. The run
  takes the list of these observations in the order of \<^verbatim>\<open>UNIVERSITY_TARGETS\<close>, \<open>None\<close> for
  a target whose page could not be fetched.
\<close>

datatype course_fetch = ParseError | Fetched "course_page option"

record target_obs =
  topuni_meta :: "string \<times> string \<times> string"
  wiki_meta :: "string \<times> string \<times> string \<times> string"
  program_pages :: "(string \<times> course_fetch) list"

text \<open>
  Lines 505-507 of \<^verbatim>\<open>main\<close>: the merge of the two partial records, with the website of
  Source B.
\<close>

definition reconcile ::
  "string \<times> string \<times> string \<Rightarrow> string \<times> string \<times> string \<times> string
   \<Rightarrow> string \<times> string \<times> string \<times> string" where
  "reconcile primary secondary =
     (let (topuni_name, topuni_city, topuni_country) = primary;
          (wiki_name, wiki_city, wiki_country, web) = secondary
      in (if topuni_name \<noteq> NA then topuni_name else wiki_name,
          if topuni_city \<noteq> NA then topuni_city else wiki_city,
          if topuni_country \<noteq> NA then topuni_country else wiki_country,
          web))"

text \<open>
  Lines 508-520: the country filter and the record that is appended; \<open>None\<close> when the
  target is skipped.
\<close>

definition university_record ::
  "string \<Rightarrow> string \<times> string \<times> string \<Rightarrow> string \<times> string \<times> string \<times> string
   \<Rightarrow> university option" where
  "university_record uid primary secondary =
     (let (name, cty, ctry, web) = reconcile primary secondary;
          normalized_country = smart_title_case ctry
      in if normalized_country \<noteq> TARGET_COUNTRY then None
         else Some \<lparr>university_id = uid,
                    university_name = clean_text (Some name),
                    country = normalized_country,
                    city = smart_title_case cty,
                    website = clean_text (Some web)\<rparr>)"

text \<open>
  The loop over the program links of one university, with the counter \<^verbatim>\<open>collected\<close>, the
  running list \<^verbatim>\<open>courses\<close> and the set \<^verbatim>\<open>global_course_keys\<close>.
\<close>

type_synonym course_key = "string \<times> string \<times> string"

fun collect_courses ::
  "string \<Rightarrow> (string \<times> course_fetch) list \<Rightarrow> nat \<Rightarrow> course list \<Rightarrow> course_key set
   \<Rightarrow> nat \<times> course list \<times> course_key set" where
  "collect_courses uid [] collected courses keys = (collected, courses, keys)"
| "collect_courses uid ((program_url, fetched) # rest) collected courses keys =
     (if collected \<ge> MIN_COURSES_PER_UNIVERSITY then (collected, courses, keys)
      else
        (case fetched of
           ParseError \<Rightarrow> collect_courses uid rest collected courses keys
         | Fetched html \<Rightarrow>
             (case scrape_course html program_url uid of
                None \<Rightarrow> collect_courses uid rest collected courses keys
              | Some c \<Rightarrow>
                  (let dedupe_key =
                         (lower (course_university_id c), lower (course_name c), lower (level c))
                   in if dedupe_key \<in> keys
                      then collect_courses uid rest collected courses keys
                      else collect_courses uid rest (collected + 1) (courses @ [c])
                             (insert dedupe_key keys)))))"

text \<open>The loop over the targets, \<^verbatim>\<open>idx\<close> counting from 1.\<close>

fun scrape_targets ::
  "nat \<Rightarrow> target_obs option list \<Rightarrow> university list \<Rightarrow> course list \<Rightarrow> course_key set
   \<Rightarrow> university list \<times> course list" where
  "scrape_targets idx [] universities courses keys = (universities, courses)"
| "scrape_targets idx (target # rest) universities courses keys =
     (case target of
        None \<Rightarrow> scrape_targets (idx + 1) rest universities courses keys
      | Some obs \<Rightarrow>
          (case university_record (format_university_id idx) (topuni_meta obs) (wiki_meta obs) of
             None \<Rightarrow> scrape_targets (idx + 1) rest universities courses keys
           | Some rec \<Rightarrow>
               (let (collected, courses', keys') =
                      collect_courses (format_university_id idx) (program_pages obs) 0 courses keys
                in scrape_targets (idx + 1) rest (universities @ [rec]) courses' keys')))"

text \<open>\<^verbatim>\<open>drop_duplicates(subset=..., keep="first")\<close>: \<open>seen\<close> holds the keys met so far.\<close>

fun drop_duplicates :: "('a \<Rightarrow> 'k) \<Rightarrow> 'k list \<Rightarrow> 'a list \<Rightarrow> 'a list" where
  "drop_duplicates key seen [] = []"
| "drop_duplicates key seen (x # xs) =
     (if key x \<in> set seen then drop_duplicates key seen xs
      else x # drop_duplicates key (key x # seen) xs)"

definition clean_universities :: "university list \<Rightarrow> university list" where
  "clean_universities universities =
     (if universities = [] then []
      else
        drop_duplicates (\<lambda>u. (university_name u, country u, city u)) []
          (map (\<lambda>u. \<lparr>university_id = clean_text (Some (university_id u)),
                      university_name = clean_text (Some (university_name u)),
                      country = smart_title_case (clean_text (Some (country u))),
                      city = smart_title_case (clean_text (Some (city u))),
                      website = (let w = clean_text (Some (website u))
                                 in if startswith w ''http'' then w else NA)\<rparr>)
             universities))"

definition with_course_id :: "string \<Rightarrow> course \<Rightarrow> course_row" where
  "with_course_id cid c =
     \<lparr>course_university_id = course_university_id c,
      course_name = course_name c,
      level = level c,
      discipline = discipline c,
      duration = duration c,
      fees = fees c,
      eligibility = eligibility c,
      course_id = cid\<rparr>"

definition clean_courses :: "course list \<Rightarrow> course_row list" where
  "clean_courses courses =
     (if courses = [] then []
      else
        let df = drop_duplicates (\<lambda>c. (course_university_id c, course_name c, level c)) []
                   (map (\<lambda>c. \<lparr>course_university_id = clean_text (Some (course_university_id c)),
                               course_name = clean_text (Some (course_name c)),
                               level = clean_text (Some (level c)),
                               discipline = smart_title_case (clean_text (Some (discipline c))),
                               duration = clean_text (Some (duration c)),
                               fees = clean_text (Some (fees c)),
                               eligibility = clean_text (Some (eligibility c))\<rparr>)
                      courses)
        in map (\<lambda>(i, c). with_course_id (format_course_id (i + 1)) c) (enumerate 0 df))"

text \<open>
  \<^verbatim>\<open>main\<close>: \<open>None\<close> when the run returns before \<^verbatim>\<open>export_to_excel\<close>, otherwise the two
  tables that are written, Universities and Courses.
\<close>

definition main :: "target_obs option list \<Rightarrow> (university list \<times> course_row list) option" where
  "main targets =
     (let (universities, courses) = scrape_targets 1 targets [] [] {};
          universities_df = clean_universities universities;
          courses_df = clean_courses courses
      in if universities_df = [] then None
         else if courses_df = [] then None
         else
           let valid_university_ids = set (map university_id universities_df);
               kept = filter (\<lambda>c. course_university_id c \<in> valid_university_ids) courses_df
           in Some (universities_df,
                    map (\<lambda>(i, c). c\<lparr>course_id := format_course_id (i + 1)\<rparr>) (enumerate 0 kept)))"

section \<open>Notions used in the statements\<close>

text \<open>
  The key under which a badge element is stored, if it is stored at all (both of its
  sub-elements are there).
\<close>

definition badge_key :: "badge_elem \<Rightarrow> string option" where
  "badge_key b =
     (case b of
        (Some t, Some v) \<Rightarrow> Some (lower (clean_text (Some t)))
      | _ \<Rightarrow> None)"

text \<open>
  A highlight block offers a value for key \<open>k\<close>: it has both sub-elements, its key is
  \<open>k\<close> and its cleaned value is not the sentinel.
\<close>

definition highlight_writes :: "string \<Rightarrow> highlight_block \<Rightarrow> bool" where
  "highlight_writes k b =
     (case b of
        (Some kt, Some v) \<Rightarrow> lower (clean_text (Some kt)) = k \<and> clean_text (Some v) \<noteq> NA
      | _ \<Rightarrow> False)"


text \<open>
  The URL that \<^verbatim>\<open>extract_program_links\<close> builds with \<^verbatim>\<open>urljoin(BASE_URL, href)\<close> from a link
  \<^verbatim>\<open>/universities/{slug}/{segment}/{rest}\<close>.
\<close>

definition BASE_URL :: string where
  "BASE_URL = ''https://www.topuniversities.com''"

definition program_url :: "string \<Rightarrow> string \<Rightarrow> string \<Rightarrow> string" where
  "program_url slug segment rest =
     BASE_URL @ ''/universities/'' @ slug @ ''/'' @ segment @ ''/'' @ rest"

text \<open>
  A path segment: not empty, without the characters that end a segment or the path, and
  without the characters that URL parsing deletes (TAB, CR, LF).
\<close>

definition path_segment :: "string \<Rightarrow> bool" where
  "path_segment s =
     (s \<noteq> [] \<and> list_all (\<lambda>c. c \<notin> set ''/?#'' \<and> \<not> is_unsafe_url_char c) s)"

text \<open>The lower-cased, cleaned study-level text has none of the recognised substrings.\<close>

definition no_level_word :: "string \<Rightarrow> bool" where
  "no_level_word raw_level =
     (let val = lower (clean_text (Some raw_level)) in
      \<not> list_ex (contains val)
          [''undergraduate'', ''bachelor'', ''postgraduate'', ''master'', ''phd'', ''doctoral'',
           ''diploma'', ''certificate'', ''mba''])"


text \<open>
  The location parser as the specification words it, for comparison with the one of the
  code: bracketed markers stripped, the text split on commas, the (trimmed) segments with a
  digit or a lone compass letter dropped and no others, the first surviving segment the
  city and the last one the country, a single survivor the city.
\<close>

definition claimed_city_country :: "string \<Rightarrow> string \<times> string" where
  "claimed_city_country cell =
     (let segments = map strip (split_on CHR '','' (strip_brackets cell));
          surviving = filter (\<lambda>p. \<not> has_digit p \<and> \<not> has_lone_compass p) segments
      in (case surviving of
            [] \<Rightarrow> (NA, NA)
          | [only] \<Rightarrow> (only, NA)
          | first # _ \<Rightarrow> (first, last surviving)))"


text \<open>The number that a string of decimal digits stands for.\<close>

definition nat_of_digits :: "string \<Rightarrow> nat" where
  "nat_of_digits s = foldl (\<lambda>a c. 10 * a + ((of_char c :: nat) - 48)) 0 s"

text \<open>
  The country of a target after the merge and the second pass through
  \<^verbatim>\<open>smart_title_case\<close> (line 508), on which the retention of the target is decided.
\<close>

definition normalized_country :: "target_obs \<Rightarrow> string" where
  "normalized_country obs =
     (let (name, cty, ctry, web) = reconcile (topuni_meta obs) (wiki_meta obs)
      in smart_title_case ctry)"


text \<open>
  Texts as the extractors return them: a cleaned text is one that \<^verbatim>\<open>clean_text\<close> leaves
  as it is, a title-cased text one that \<^verbatim>\<open>smart_title_case\<close> leaves as it is.
\<close>

definition cleaned :: "string \<Rightarrow> bool" where
  "cleaned t = (clean_text (Some t) = t)"

definition title_cased :: "string \<Rightarrow> bool" where
  "title_cased t = (smart_title_case t = t)"


section \<open>Example inputs\<close>

text \<open>
  A course page whose only badge repeats its title as its value, with a heading from which
  the course-name heuristic would read a discipline.
\<close>

definition example_page :: course_page where
  "example_page =
     \<lparr>heading = Some ''MSc Computer Science'',
      badge_elems = [(Some ''Main Subject Area'', Some ''Main Subject Area'')],
      highlight_blocks = [],
      entry_blocks = [],
      section_headings = []\<rparr>"


text \<open>
  The first two configured targets, both universities of Hyderabad, on ranking-site pages
  without structured data and with the same site-wide top heading, so that name comes
  from that heading and city and country from the encyclopedia. The course page of the
  first target cannot be fetched, the one of the second can.
\<close>

definition duplicate_profile_targets :: "target_obs option list" where
  "duplicate_profile_targets =
     [Some \<lparr>topuni_meta = (''Top Universities'', ''N/A'', ''N/A''),
            wiki_meta = (''University of Hyderabad'', ''Hyderabad'', ''India'',
                         ''https://uohyd.ac.in''),
            program_pages =
              [(''https://www.topuniversities.com/universities/university-hyderabad/masters/computer-science'',
                Fetched None)]\<rparr>,
      Some \<lparr>topuni_meta = (''Top Universities'', ''N/A'', ''N/A''),
            wiki_meta = (''Osmania University'', ''Hyderabad'', ''India'',
                         ''https://www.osmania.ac.in''),
            program_pages =
              [(''https://www.topuniversities.com/universities/osmania-university/masters/computer-science'',
                Fetched (Some example_page))]\<rparr>]"

text \<open>
  Two targets, the first resolved to another country than the configured one, the second
  to the configured one, each with one course page.
\<close>

definition mixed_country_targets :: "target_obs option list" where
  "mixed_country_targets =
     [Some \<lparr>topuni_meta = (''Tribhuvan University'', ''Kathmandu'', ''Nepal''),
            wiki_meta = (''Tribhuvan University'', ''Kirtipur'', ''Nepal'', ''https://tu.edu.np''),
            program_pages =
              [(''https://www.topuniversities.com/universities/tribhuvan-university/masters/physics'',
                Fetched (Some example_page))]\<rparr>,
      Some \<lparr>topuni_meta = (''N/A'', ''N/A'', ''N/A''),
            wiki_meta = (''Osmania University'', ''Hyderabad'', ''India'',
                         ''https://www.osmania.ac.in''),
            program_pages =
              [(''https://www.topuniversities.com/universities/osmania-university/masters/computer-science'',
                Fetched (Some example_page))]\<rparr>]"

text \<open>
  The two targets above that end up with the same name, city and country, followed by a
  third university with one course page: the course of the second target is an orphan once
  the duplicate university is dropped.
\<close>

definition orphaned_course_targets :: "target_obs option list" where
  "orphaned_course_targets =
     duplicate_profile_targets @
     [Some \<lparr>topuni_meta = (''University of Madras'', ''Chennai'', ''India''),
            wiki_meta = (''University of Madras'', ''Chennai'', ''India'',
                         ''https://www.unom.ac.in''),
            program_pages =
              [(''https://www.topuniversities.com/universities/university-madras/masters/computer-science'',
                Fetched (Some example_page))]\<rparr>]"

section \<open>Properties of the text primitives\<close>

lemma strip_unfold: "strip s = rev (dropWhile is_space (rev (dropWhile is_space s)))"
  by (simp add: strip_def strip_where_def rstrip_where_def)


lemma collapse_ws_nonspace_hd:
  "s \<noteq> [] \<Longrightarrow> \<not> is_space (hd s) \<Longrightarrow> collapse_ws s \<noteq> [] \<and> hd (collapse_ws s) = hd s"
  by (cases s) auto

lemma single_spaced_collapse_ws: "single_spaced (collapse_ws s)"
proof (induction s rule: collapse_ws.induct)
  case 1
  show ?case by simp
next
  case (2 c cs)
  show ?case
  proof (cases "is_space c")
    case True
    let ?r = "dropWhile is_space cs"
    have hd: "?r \<noteq> [] \<Longrightarrow> \<not> is_space (hd ?r)"
      by (rule hd_dropWhile)
    have "case collapse_ws ?r of [] \<Rightarrow> True | d # _ \<Rightarrow> \<not> is_space d"
    proof (cases ?r)
      case Nil
      then have "collapse_ws ?r = []" by (simp only: collapse_ws.simps)
      then show ?thesis by (simp only: list.case)
    next
      case (Cons d ds)
      with hd have "\<not> is_space d" by simp
      with Cons show ?thesis by simp
    qed
    with True 2 show ?thesis by simp
  next
    case False
    with 2 show ?thesis by simp
  qed
qed

lemma single_spaced_append:
  "single_spaced (xs @ ys) \<Longrightarrow> single_spaced xs \<and> single_spaced ys"
proof (induction xs)
  case Nil
  then show ?case by simp
next
  case (Cons x xs)
  then show ?case by (cases xs) (auto split: if_splits list.splits)
qed

lemma collapse_ws_fixed: "single_spaced t \<Longrightarrow> collapse_ws t = t"
proof (induction t)
  case Nil
  show ?case by simp
next
  case (Cons c cs)
  then show ?case by (cases cs) (auto split: if_splits)
qed

lemma strip_decomp: "\<exists>a b. s = a @ strip s @ b"
proof -
  let ?d = "dropWhile is_space s"
  have "rev ?d = takeWhile is_space (rev ?d) @ dropWhile is_space (rev ?d)"
    by simp
  then have "?d = rev (dropWhile is_space (rev ?d)) @ rev (takeWhile is_space (rev ?d))"
    by (metis rev_append rev_rev_ident)
  then have "?d = strip s @ rev (takeWhile is_space (rev ?d))"
    by (simp add: strip_unfold)
  moreover have "s = takeWhile is_space s @ ?d" by simp
  ultimately show ?thesis by metis
qed

lemma strip_ends:
  assumes "strip s \<noteq> []"
  shows "\<not> is_space (hd (strip s))" and "\<not> is_space (last (strip s))"
proof -
  let ?d = "dropWhile is_space s"
  let ?w = "dropWhile is_space (rev ?d)"
  from assms have w: "?w \<noteq> []" by (simp add: strip_unfold)
  then have "\<not> is_space (hd ?w)" by (rule hd_dropWhile)
  then show "\<not> is_space (last (strip s))"
    using w by (simp add: strip_unfold last_rev)
  have d: "?d \<noteq> []"
  proof
    assume "?d = []"
    then have "?w = []" by (simp only: rev.simps dropWhile.simps)
    with w show False by contradiction
  qed
  then have hd: "\<not> is_space (hd ?d)" by (rule hd_dropWhile)
  obtain b where "?d = strip s @ b"
    using takeWhile_dropWhile_id [of is_space "rev ?d"]
    by (metis rev_append rev_rev_ident strip_unfold)
  with assms have "hd (strip s) = hd ?d" by (metis hd_append2)
  with hd show "\<not> is_space (hd (strip s))" by simp
qed

lemma strip_fixed:
  assumes "t \<noteq> []" "\<not> is_space (hd t)" "\<not> is_space (last t)"
  shows "strip t = t"
proof -
  from assms have "dropWhile is_space t = t" by (cases t) auto
  moreover from assms have "dropWhile is_space (rev t) = rev t"
    by (cases "rev t") (auto simp: last_rev [symmetric] hd_rev)
  ultimately show ?thesis by (simp add: strip_unfold)
qed

lemma clean_text_NA: "clean_text (Some NA) = NA"
  by (simp add: clean_text_def NA_def strip_unfold is_space_def)

lemma clean_text_shape:
  assumes "strip (collapse_ws s) \<noteq> []"
  shows "single_spaced (strip (collapse_ws s))"
proof -
  obtain a b where "collapse_ws s = a @ strip (collapse_ws s) @ b"
    using strip_decomp by blast
  then show ?thesis
    using single_spaced_collapse_ws [of s] single_spaced_append by metis
qed

lemma clean_text_idem: "clean_text (Some (clean_text v)) = clean_text v"
proof (cases v)
  case None
  then have "clean_text v = NA" by (simp add: clean_text_def)
  then show ?thesis by (simp only: clean_text_NA)
next
  case (Some s)
  let ?t = "strip (collapse_ws s)"
  show ?thesis
  proof (cases "?t = []")
    case True
    with Some have "clean_text v = NA" by (simp add: clean_text_def)
    then show ?thesis by (simp add: clean_text_NA)
  next
    case False
    have "collapse_ws ?t = ?t"
      using False by (intro collapse_ws_fixed clean_text_shape)
    moreover have "strip ?t = ?t"
      using False strip_ends [of "collapse_ws s"] by (intro strip_fixed)
    ultimately show ?thesis
      using Some False by (simp add: clean_text_def)
  qed
qed

lemma collapse_ws_all_space:
  assumes "\<forall>c\<in>set s. is_space c"
  shows "collapse_ws s = [] \<or> collapse_ws s = '' ''"
proof (cases s)
  case Nil
  then show ?thesis by simp
next
  case (Cons c cs)
  with assms have "dropWhile is_space cs = []" by simp
  with Cons assms show ?thesis by (simp del: dropWhile_eq_Nil_conv)
qed

lemma clean_text_blank: "\<forall>c\<in>set s. is_space c \<Longrightarrow> clean_text (Some s) = NA"
  using collapse_ws_all_space [of s]
  by (auto simp: clean_text_def strip_unfold is_space_def)


lemma is_space_blank [simp]: "is_space CHR '' ''"
  by (simp add: is_space_def)

lemma rstrip_append:
  "rstrip_where P (xs @ ys) = (if rstrip_where P ys = [] then rstrip_where P xs else xs @ rstrip_where P ys)"
  by (auto simp: rstrip_where_def dropWhile_append)

lemma rstrip_fixed: "w \<noteq> [] \<Longrightarrow> \<not> P (last w) \<Longrightarrow> rstrip_where P w = w"
  by (cases "rev w") (auto simp: rstrip_where_def last_rev [symmetric] hd_rev)

lemma collapse_ws_word:
  "\<forall>c\<in>set w. \<not> is_space c \<Longrightarrow> collapse_ws (w @ r) = w @ collapse_ws r"
  by (induction w) auto

lemma strip_collapse_ws_drop:
  "strip (collapse_ws s) = strip (collapse_ws (dropWhile is_space s))"
proof (cases s)
  case Nil
  then show ?thesis by simp
next
  case (Cons c cs)
  show ?thesis
  proof (cases "is_space c")
    case True
    define Y where "Y = collapse_ws (dropWhile is_space cs)"
    from True Cons have "collapse_ws s = CHR '' '' # Y"
      by (simp add: Y_def)
    moreover from True Cons have "collapse_ws (dropWhile is_space s) = Y"
      by (simp add: Y_def)
    moreover have "strip (CHR '' '' # Y) = strip Y"
      by (simp add: strip_def strip_where_def)
    ultimately show ?thesis by simp
  next
    case False
    with Cons have e: "dropWhile is_space s = s" by simp
    show ?thesis by (subst e) (rule refl)
  qed
qed

lemma py_split_Nil: "dropWhile is_space s = [] \<Longrightarrow> py_split s = []"
  by (subst py_split.simps) (simp only: list.case)

lemma py_split_Cons:
  "dropWhile is_space s = c # cs \<Longrightarrow>
   py_split s = takeWhile (\<lambda>x. \<not> is_space x) (c # cs) # py_split (dropWhile (\<lambda>x. \<not> is_space x) cs)"
  by (subst py_split.simps) (simp only: list.case)

lemma py_split_words_nonempty: "w \<in> set (py_split s) \<Longrightarrow> w \<noteq> []"
proof (induction s arbitrary: w rule: py_split.induct)
  case (1 s)
  show ?case
  proof (cases "dropWhile is_space s")
    case Nil
    then have "py_split s = []" by (rule py_split_Nil)
    with "1.prems" show ?thesis by simp
  next
    case (Cons c cs)
    then have c: "\<not> is_space c" using hd_dropWhile [of is_space s] by simp
    from "1.prems" have "w = takeWhile (\<lambda>x. \<not> is_space x) (c # cs)
         \<or> w \<in> set (py_split (dropWhile (\<lambda>x. \<not> is_space x) cs))"
      by (simp only: py_split_Cons [OF Cons] set_simps insert_iff)
    then show ?thesis
    proof
      assume "w = takeWhile (\<lambda>x. \<not> is_space x) (c # cs)"
      with c show ?thesis by simp
    next
      assume "w \<in> set (py_split (dropWhile (\<lambda>x. \<not> is_space x) cs))"
      with Cons show ?thesis by (rule "1.IH")
    qed
  qed
qed

lemma join_nonempty: "ws \<noteq> [] \<Longrightarrow> \<forall>w\<in>set ws. w \<noteq> [] \<Longrightarrow> join sep ws \<noteq> []"
  by (induction sep ws rule: join.induct) auto

lemma rstrip_blank_Cons:
  "rstrip_where is_space (CHR '' '' # Y) =
     (if rstrip_where is_space Y = [] then [] else CHR '' '' # rstrip_where is_space Y)"
  using rstrip_append [of is_space "'' ''" Y] by (simp add: rstrip_where_def)

lemma collapse_ws_no_leading_space:
  "s = [] \<or> \<not> is_space (hd s) \<Longrightarrow> dropWhile is_space (collapse_ws s) = collapse_ws s"
  by (cases s) auto

lemma strip_collapse_ws_rest:
  assumes "r = [] \<or> is_space (hd r)"
  shows "rstrip_where is_space (collapse_ws r) =
           (if strip (collapse_ws r) = [] then [] else CHR '' '' # strip (collapse_ws r))"
proof (cases r)
  case Nil
  then show ?thesis by (simp add: strip_def strip_where_def rstrip_where_def)
next
  case (Cons e es)
  define Y where "Y = collapse_ws (dropWhile is_space es)"
  from Cons assms have X: "collapse_ws r = CHR '' '' # Y" by (simp add: Y_def)
  have "dropWhile is_space es = [] \<or> \<not> is_space (hd (dropWhile is_space es))"
    using hd_dropWhile [of is_space es] by blast
  then have "dropWhile is_space Y = Y"
    unfolding Y_def by (rule collapse_ws_no_leading_space)
  then have "strip Y = rstrip_where is_space Y"
    by (simp only: strip_def strip_where_def)
  moreover have "strip (CHR '' '' # Y) = strip Y"
    by (simp add: strip_def strip_where_def)
  ultimately show ?thesis
    by (simp only: X rstrip_blank_Cons)
qed

lemma strip_word_append:
  assumes "w \<noteq> []" "\<forall>x\<in>set w. \<not> is_space x"
  shows "strip (w @ X) = (if rstrip_where is_space X = [] then w else w @ rstrip_where is_space X)"
proof -
  from assms have "\<not> is_space (hd w)" by (cases w) auto
  with assms(1) have "dropWhile is_space (w @ X) = w @ X" by (cases w) auto
  then have "strip (w @ X) = rstrip_where is_space (w @ X)"
    by (simp only: strip_def strip_where_def)
  moreover have "rstrip_where is_space w = w"
  proof (rule rstrip_fixed)
    show "w \<noteq> []" by (rule assms(1))
    then have "last w \<in> set w" by (rule last_in_set)
    with assms(2) show "\<not> is_space (last w)" by blast
  qed
  ultimately show ?thesis by (simp only: rstrip_append)
qed

lemma strip_collapse_ws_split:
  "strip (collapse_ws s) = join '' '' (py_split s)"
proof (induction s rule: py_split.induct)
  case (1 s)
  define d where "d = dropWhile is_space s"
  show ?case
  proof (cases d)
    case Nil
    then have "py_split s = []"
      unfolding d_def by (rule py_split_Nil)
    moreover have "strip (collapse_ws d) = []"
      unfolding Nil by (simp add: strip_def strip_where_def rstrip_where_def)
    then have "strip (collapse_ws s) = []"
      unfolding d_def by (simp only: strip_collapse_ws_drop [symmetric])
    ultimately show ?thesis by simp
  next
    case (Cons c cs)
    then have c: "\<not> is_space c" using hd_dropWhile [of is_space s] by (simp add: d_def)
    define w where "w = takeWhile (\<lambda>x. \<not> is_space x) (c # cs)"
    define r where "r = dropWhile (\<lambda>x. \<not> is_space x) cs"
    have split: "py_split s = w # py_split r"
      using Cons unfolding d_def w_def r_def by (rule py_split_Cons)
    have IH: "strip (collapse_ws r) = join '' '' (py_split r)"
      unfolding r_def using Cons by (intro "1.IH" [of c cs]) (simp add: d_def)
    have w: "w \<noteq> []" "\<forall>x\<in>set w. \<not> is_space x"
      unfolding w_def using c by (auto dest: set_takeWhileD)
    have "d = w @ r" unfolding Cons w_def r_def using c by simp
    then have "collapse_ws d = w @ collapse_ws r"
      using collapse_ws_word [OF w(2)] by simp
    then have "strip (collapse_ws s) = strip (w @ collapse_ws r)"
      unfolding d_def by (simp only: strip_collapse_ws_drop [of s])
    also have "\<dots> = (if rstrip_where is_space (collapse_ws r) = [] then w
                      else w @ rstrip_where is_space (collapse_ws r))"
      using w by (rule strip_word_append)
    finally have main: "strip (collapse_ws s) =
        (if rstrip_where is_space (collapse_ws r) = [] then w
         else w @ rstrip_where is_space (collapse_ws r))" .
    have "r = [] \<or> is_space (hd r)"
      unfolding r_def using hd_dropWhile [of "\<lambda>x. \<not> is_space x" cs] by blast
    then have rX: "rstrip_where is_space (collapse_ws r) =
           (if strip (collapse_ws r) = [] then [] else CHR '' '' # strip (collapse_ws r))"
      by (rule strip_collapse_ws_rest)
    show ?thesis
    proof (cases "py_split r")
      case Nil
      with IH have "strip (collapse_ws r) = []" by simp
      with rX have "rstrip_where is_space (collapse_ws r) = []" by simp
      with main have "strip (collapse_ws s) = w" by simp
      with Nil split show ?thesis by simp
    next
      case (Cons y ys)
      have "join '' '' (py_split r) \<noteq> []"
      proof (rule join_nonempty)
        show "py_split r \<noteq> []" using Cons by simp
        show "\<forall>w\<in>set (py_split r). w \<noteq> []" using py_split_words_nonempty by blast
      qed
      with IH have ne: "strip (collapse_ws r) \<noteq> []" by simp
      with rX have "rstrip_where is_space (collapse_ws r) = CHR '' '' # strip (collapse_ws r)"
        by simp
      with main have "strip (collapse_ws s) = w @ CHR '' '' # join '' '' (py_split r)"
        by (simp add: IH)
      with Cons split show ?thesis by simp
    qed
  qed
qed

lemma py_split_nonempty: "\<exists>c\<in>set s. \<not> is_space c \<Longrightarrow> py_split s \<noteq> []"
proof -
  assume "\<exists>c\<in>set s. \<not> is_space c"
  then have "dropWhile is_space s \<noteq> []" by simp
  then obtain c cs where "dropWhile is_space s = c # cs" by (cases "dropWhile is_space s") auto
  then show ?thesis by (simp add: py_split_Cons)
qed

lemma join_py_split_nonempty: "py_split s \<noteq> [] \<Longrightarrow> join '' '' (py_split s) \<noteq> []"
  using join_nonempty [of "py_split s" "'' ''"] py_split_words_nonempty [of _ s] by blast

lemma clean_text_split:
  "clean_text (Some s) = (if py_split s = [] then NA else join '' '' (py_split s))"
  using join_py_split_nonempty [of s]
  by (auto simp: clean_text_def strip_collapse_ws_split)

lemma clean_text_nonempty: "clean_text v \<noteq> []"
  by (cases v) (auto simp: clean_text_def NA_def Let_def)

text \<open>
  Claim C9. \<^verbatim>\<open>clean_text\<close> returns a (non-empty) string for every input, \<^verbatim>\<open>None\<close>
  included, and cleaning a cleaned text changes nothing. \<^verbatim>\<open>None\<close>, the empty string and
  a string of whitespace only give the sentinel. Any other string gives its text with the
  ends trimmed and every run of whitespace collapsed to one space: the words of the input
  joined by single spaces, with no whitespace but single spaces in it and none at either end.
\<close>

theorem clean_text_total_idempotent:
  "clean_text (Some (clean_text v)) = clean_text v
   \<and> clean_text v \<noteq> []
   \<and> clean_text None = NA
   \<and> clean_text (Some []) = NA
   \<and> ((\<forall>c\<in>set s. is_space c) \<longrightarrow> clean_text (Some s) = NA)
   \<and> ((\<exists>c\<in>set s. \<not> is_space c) \<longrightarrow>
         clean_text (Some s) = strip (collapse_ws s)
         \<and> clean_text (Some s) = join '' '' (py_split s)
         \<and> single_spaced (clean_text (Some s))
         \<and> \<not> is_space (hd (clean_text (Some s)))
         \<and> \<not> is_space (last (clean_text (Some s))))"
proof (intro conjI impI)
  show "clean_text (Some (clean_text v)) = clean_text v" by (rule clean_text_idem)
  show "clean_text v \<noteq> []" by (rule clean_text_nonempty)
  show "clean_text None = NA" by (simp add: clean_text_def)
  show "clean_text (Some []) = NA" by (simp add: clean_text_blank)
  show "clean_text (Some s) = NA" if "\<forall>c\<in>set s. is_space c"
    using that by (rule clean_text_blank)
next
  assume "\<exists>c\<in>set s. \<not> is_space c"
  then have ne: "py_split s \<noteq> []" by (rule py_split_nonempty)
  then have *: "strip (collapse_ws s) \<noteq> []"
    using join_py_split_nonempty by (simp add: strip_collapse_ws_split)
  then show eq: "clean_text (Some s) = strip (collapse_ws s)"
    by (simp add: clean_text_def)
  show "clean_text (Some s) = join '' '' (py_split s)"
    using ne by (simp add: clean_text_split)
  show "single_spaced (clean_text (Some s))"
    unfolding eq using * by (rule clean_text_shape)
  show "\<not> is_space (hd (clean_text (Some s)))"
    unfolding eq using * by (rule strip_ends)
  show "\<not> is_space (last (clean_text (Some s)))"
    unfolding eq using * by (rule strip_ends)
qed

theorem clean_text_total_idempotent_witness:
  "clean_text (Some '' '') = ''N/A''
   \<and> (\<exists>c\<in>set ''  MSc   Data Science ''. \<not> is_space c)
   \<and> clean_text (Some ''  MSc   Data Science '') = ''MSc Data Science''
   \<and> clean_text (Some (clean_text (Some ''  MSc   Data Science ''))) = ''MSc Data Science''"
proof -
  have a: "\<forall>c\<in>set '' ''. is_space c" by simp
  have b: "\<exists>c\<in>set ''  MSc   Data Science ''. \<not> is_space c" by (simp add: is_space_def)
  have c: "join '' '' (py_split ''  MSc   Data Science '') = ''MSc Data Science''"
    by code_simp
  note blank = clean_text_total_idempotent [of "Some '' ''" "'' ''"]
  note worded = clean_text_total_idempotent
      [of "Some ''  MSc   Data Science ''" "''  MSc   Data Science ''"]
  from blank a have 1: "clean_text (Some '' '') = ''N/A''"
    unfolding NA_def by blast
  from worded b have "clean_text (Some ''  MSc   Data Science '')
      = join '' '' (py_split ''  MSc   Data Science '')"
    by blast
  with c have 2: "clean_text (Some ''  MSc   Data Science '') = ''MSc Data Science''"
    by (simp only:)
  from worded have "clean_text (Some (clean_text (Some ''  MSc   Data Science '')))
      = clean_text (Some ''  MSc   Data Science '')"
    by blast
  with 2 have 3: "clean_text (Some (clean_text (Some ''  MSc   Data Science '')))
      = ''MSc Data Science''"
    by (simp only:)
  from 1 b 2 3 show ?thesis by (intro conjI)
qed

section \<open>Badges and highlights\<close>

lemma badges_loop_append:
  "badges_loop m (xs @ ys) = badges_loop (badges_loop m xs) ys"
  by (induction xs arbitrary: m) (auto split: option.splits simp: Let_def)

lemma highlights_loop_append:
  "highlights_loop m (xs @ ys) = highlights_loop (highlights_loop m xs) ys"
  by (induction xs arbitrary: m) (auto split: option.splits simp: Let_def)

lemma badges_loop_other:
  "\<forall>b\<in>set bs. badge_key b \<noteq> Some k \<Longrightarrow> badges_loop m bs k = m k"
  by (induction bs arbitrary: m) (auto split: option.splits simp: Let_def badge_key_def)

lemma badges_last_wins:
  assumes "\<forall>b\<in>set post. badge_key b \<noteq> Some (lower (clean_text (Some t)))"
  shows "extract_badges (pre @ [(Some t, Some v)] @ post) (lower (clean_text (Some t)))
         = Some (badge_value (clean_text (Some t)) (clean_text (Some v)))"
  using assms by (simp add: extract_badges_def badges_loop_append badges_loop_other Let_def)

lemma highlights_loop_keep:
  "m k = Some x \<Longrightarrow> highlights_loop m bs k = Some x"
proof (induction bs arbitrary: m)
  case Nil
  then show ?case by simp
next
  case (Cons b bs)
  obtain kt vt where b: "b = (kt, vt)" by (cases b)
  show ?case
  proof (cases "\<exists>k' v'. kt = Some k' \<and> vt = Some v'")
    case False
    then have "highlights_loop m (b # bs) = highlights_loop m bs"
      unfolding b by (cases kt; cases vt) simp_all
    with Cons show ?thesis by simp
  next
    case True
    then obtain k' v' where kv: "kt = Some k'" "vt = Some v'" by blast
    define key where "key = lower (clean_text (Some k'))"
    show ?thesis
    proof (cases "key \<noteq> [] \<and> m key = None \<and> clean_text (Some v') \<noteq> NA")
      case True
      with Cons.prems have "key \<noteq> k" by auto
      with Cons.prems have "(m(key \<mapsto> clean_text (Some v'))) k = Some x" by simp
      then have "highlights_loop (m(key \<mapsto> clean_text (Some v'))) bs k = Some x"
        by (rule Cons.IH)
      with True show ?thesis unfolding b kv by (simp add: key_def Let_def)
    next
      case False
      then have "highlights_loop m (b # bs) = highlights_loop m bs"
        unfolding b kv by (auto simp: key_def Let_def)
      with Cons show ?thesis by simp
    qed
  qed
qed

lemma highlights_loop_other:
  "\<forall>b\<in>set bs. \<not> highlight_writes k b \<Longrightarrow> highlights_loop m bs k = m k"
proof (induction bs arbitrary: m)
  case Nil
  then show ?case by simp
next
  case (Cons b bs)
  then have IH: "\<And>m. highlights_loop m bs k = m k" by simp
  obtain kt vt where b: "b = (kt, vt)" by (cases b)
  show ?case
  proof (cases "\<exists>k' v'. kt = Some k' \<and> vt = Some v'")
    case False
    then have "highlights_loop m (b # bs) = highlights_loop m bs"
      unfolding b by (cases kt; cases vt) simp_all
    with IH show ?thesis by simp
  next
    case True
    then obtain k' v' where kv: "kt = Some k'" "vt = Some v'" by blast
    define key where "key = lower (clean_text (Some k'))"
    show ?thesis
    proof (cases "key \<noteq> [] \<and> m key = None \<and> clean_text (Some v') \<noteq> NA")
      case True
      moreover from Cons.prems have "\<not> highlight_writes k (Some k', Some v')"
        by (simp add: b kv)
      ultimately have "key \<noteq> k" by (auto simp: highlight_writes_def key_def)
      then have "(m(key \<mapsto> clean_text (Some v'))) k = m k" by simp
      with IH [of "m(key \<mapsto> clean_text (Some v'))"]
      have "highlights_loop (m(key \<mapsto> clean_text (Some v'))) bs k = m k" by simp
      with True show ?thesis unfolding b kv by (simp add: key_def Let_def)
    next
      case False
      then have "highlights_loop m (b # bs) = highlights_loop m bs"
        unfolding b kv by (auto simp: key_def Let_def)
      with IH show ?thesis by simp
    qed
  qed
qed

lemma lower_clean_nonempty: "lower (clean_text v) \<noteq> []"
  using clean_text_nonempty [of v] by (simp add: lower_def)

lemma highlights_first_wins:
  assumes "\<forall>b\<in>set pre. \<not> highlight_writes (lower (clean_text (Some kt))) b"
    and "clean_text (Some v) \<noteq> NA"
  shows "extract_highlights (pre @ [(Some kt, Some v)] @ post) (lower (clean_text (Some kt)))
         = Some (clean_text (Some v))"
proof -
  let ?k = "lower (clean_text (Some kt))"
  have "highlights_loop Map.empty pre ?k = None"
    using assms(1) by (simp add: highlights_loop_other)
  then have "highlights_loop (highlights_loop Map.empty pre) [(Some kt, Some v)] ?k
      = Some (clean_text (Some v))"
    using assms(2) lower_clean_nonempty [of "Some kt"] by (simp add: Let_def)
  then show ?thesis
    by (simp only: extract_highlights_def highlights_loop_append highlights_loop_keep)
qed

lemma badge_value_same: "badge_value t t = NA"
  by (auto simp: badge_value_def endswith_def clean_text_def strip_def strip_where_def rstrip_where_def)

lemma smart_title_case_NA: "smart_title_case NA = NA"
  by (simp add: smart_title_case_def clean_text_NA)

text \<open>
  Claim C1, as amended. A badge with title \<^verbatim>\<open>Duration\<close> and displayed value
  \<^verbatim>\<open>Duration: 2 Years\<close> is stored under \<^verbatim>\<open>duration\<close> with its value unchanged,
  \<^verbatim>\<open>Duration: 2 Years\<close>: the title is a prefix of the value, not a suffix, and nothing is
  stripped. In general, for the last badge element stored under a key, the stored value
  differs from the cleaned displayed value only if that value ends, ignoring case, with the
  cleaned title; when it does (and neither is the sentinel), the stored value is the cleaned
  rest of the value before that suffix. A title that is a prefix but not a suffix of the
  value leaves the value as it is.
\<close>

theorem badge_strip_only_on_suffix:
  "extract_badges [(Some ''Duration'', Some ''Duration: 2 Years'')] ''duration''
     = Some ''Duration: 2 Years''
   \<and> ((\<forall>b\<in>set post. badge_key b \<noteq> Some (lower (clean_text (Some t)))) \<longrightarrow>
        (let title = clean_text (Some t);
             val = clean_text (Some v);
             stored = extract_badges (pre @ [(Some t, Some v)] @ post) (lower title)
         in (stored \<noteq> Some val \<longrightarrow> endswith (lower val) (lower title))
            \<and> (startswith (lower val) (lower title) \<and> \<not> endswith (lower val) (lower title)
                 \<longrightarrow> stored = Some val)
            \<and> (endswith (lower val) (lower title) \<and> val \<noteq> NA \<and> title \<noteq> NA
                 \<longrightarrow> stored = Some (clean_text (Some (take (length val - length title) val))))))"
proof (intro conjI impI)
  show "extract_badges [(Some ''Duration'', Some ''Duration: 2 Years'')] ''duration''
     = Some ''Duration: 2 Years''"
    by code_simp
next
  assume "\<forall>b\<in>set post. badge_key b \<noteq> Some (lower (clean_text (Some t)))"
  then have "extract_badges (pre @ [(Some t, Some v)] @ post) (lower (clean_text (Some t)))
         = Some (badge_value (clean_text (Some t)) (clean_text (Some v)))"
    by (rule badges_last_wins)
  then show "let title = clean_text (Some t);
             val = clean_text (Some v);
             stored = extract_badges (pre @ [(Some t, Some v)] @ post) (lower title)
         in (stored \<noteq> Some val \<longrightarrow> endswith (lower val) (lower title))
            \<and> (startswith (lower val) (lower title) \<and> \<not> endswith (lower val) (lower title)
                 \<longrightarrow> stored = Some val)
            \<and> (endswith (lower val) (lower title) \<and> val \<noteq> NA \<and> title \<noteq> NA
                 \<longrightarrow> stored = Some (clean_text (Some (take (length val - length title) val))))"
    by (simp add: Let_def badge_value_def)
qed

theorem badge_strip_only_on_suffix_witness:
  "extract_badges [(Some ''Duration'', Some ''2 Years Duration'')] ''duration'' = Some ''2 Years''
   \<and> startswith (lower ''Duration: 2 Years'') (lower ''Duration'')
   \<and> \<not> endswith (lower ''Duration: 2 Years'') (lower ''Duration'')
   \<and> extract_badges [(Some ''Duration'', Some ''Duration: 2 Years'')] ''duration''
       = Some ''Duration: 2 Years''"
proof -
  have t: "clean_text (Some ''Duration'') = ''Duration''" by code_simp
  have l: "lower ''Duration'' = ''duration''" by code_simp
  have v1: "clean_text (Some ''2 Years Duration'') = ''2 Years Duration''" by code_simp
  have e1: "endswith (lower ''2 Years Duration'') ''duration''" by code_simp
  have r1: "clean_text (Some (take (length ''2 Years Duration'' - length ''Duration'')
                ''2 Years Duration'')) = ''2 Years''"
    by code_simp
  have v2: "clean_text (Some ''Duration: 2 Years'') = ''Duration: 2 Years''" by code_simp
  have s2: "startswith (lower ''Duration: 2 Years'') ''duration''" by code_simp
  have e2: "\<not> endswith (lower ''Duration: 2 Years'') ''duration''" by code_simp
  have na: "''2 Years Duration'' \<noteq> NA" "''Duration'' \<noteq> NA" by (simp_all add: NA_def)
  have "extract_badges ([] @ [(Some ''Duration'', Some ''2 Years Duration'')] @ []) ''duration''
      = Some ''2 Years''"
    using badge_strip_only_on_suffix [of "[]" "''Duration''" "''2 Years Duration''" "[]"]
    by (simp only: Let_def t l v1) (use e1 r1 na in simp)
  moreover have "extract_badges ([] @ [(Some ''Duration'', Some ''Duration: 2 Years'')] @ [])
      ''duration'' = Some ''Duration: 2 Years''"
    using badge_strip_only_on_suffix [of "[]" "''Duration''" "''Duration: 2 Years''" "[]"]
    by (simp only: Let_def t l v2) (use s2 e2 in simp)
  ultimately show ?thesis using s2 e2 by (simp add: l)
qed

theorem badge_prefix_title_counterexample:
  "extract_badges [(Some ''Duration'', Some ''Duration: 2 Years'')] ''duration''
     \<noteq> Some ''2 Years''"
  by code_simp

text \<open>
  Claim C8, as amended. Among the badge elements of a page that have both sub-elements,
  the last one with a given lower-cased title decides the stored value: later writes
  overwrite. Among the highlight blocks, the first one with a given key whose cleaned value
  is not the sentinel decides it: a block with an empty value stores nothing, and once a
  value is stored every later block with that key is ignored. In particular, of two badge
  elements with the same key the value of the second is stored, and of two highlight
  blocks with the same key the value of the first is stored when it is not the sentinel.
\<close>

theorem badge_last_highlight_first:
  "((\<forall>b\<in>set post. badge_key b \<noteq> Some (lower (clean_text (Some t)))) \<longrightarrow>
      extract_badges (pre @ [(Some t, Some v)] @ post) (lower (clean_text (Some t)))
        = Some (badge_value (clean_text (Some t)) (clean_text (Some v))))
   \<and> ((\<forall>b\<in>set hpre. \<not> highlight_writes (lower (clean_text (Some k))) b)
        \<and> clean_text (Some hv) \<noteq> NA \<longrightarrow>
      extract_highlights (hpre @ [(Some k, Some hv)] @ hpost) (lower (clean_text (Some k)))
        = Some (clean_text (Some hv)))
   \<and> (lower (clean_text (Some t1)) = lower (clean_text (Some t2)) \<longrightarrow>
      extract_badges [(Some t1, Some v1), (Some t2, Some v2)] (lower (clean_text (Some t2)))
        = Some (badge_value (clean_text (Some t2)) (clean_text (Some v2))))
   \<and> (lower (clean_text (Some k1)) = lower (clean_text (Some k2))
        \<and> clean_text (Some hv1) \<noteq> NA \<longrightarrow>
      extract_highlights [(Some k1, Some hv1), (Some k2, Some hv2)] (lower (clean_text (Some k1)))
        = Some (clean_text (Some hv1)))"
proof (intro conjI impI)
  assume "\<forall>b\<in>set post. badge_key b \<noteq> Some (lower (clean_text (Some t)))"
  then show "extract_badges (pre @ [(Some t, Some v)] @ post) (lower (clean_text (Some t)))
        = Some (badge_value (clean_text (Some t)) (clean_text (Some v)))"
    by (rule badges_last_wins)
next
  assume "(\<forall>b\<in>set hpre. \<not> highlight_writes (lower (clean_text (Some k))) b)
        \<and> clean_text (Some hv) \<noteq> NA"
  then show "extract_highlights (hpre @ [(Some k, Some hv)] @ hpost) (lower (clean_text (Some k)))
        = Some (clean_text (Some hv))"
    using highlights_first_wins [of hpre k hv hpost] by blast
next
  show "extract_badges [(Some t1, Some v1), (Some t2, Some v2)] (lower (clean_text (Some t2)))
        = Some (badge_value (clean_text (Some t2)) (clean_text (Some v2)))"
    using badges_last_wins [of "[]" t2 "[(Some t1, Some v1)]" v2] by simp
next
  assume "lower (clean_text (Some k1)) = lower (clean_text (Some k2))
        \<and> clean_text (Some hv1) \<noteq> NA"
  then show "extract_highlights [(Some k1, Some hv1), (Some k2, Some hv2)]
        (lower (clean_text (Some k1))) = Some (clean_text (Some hv1))"
    using highlights_first_wins [of "[]" k1 hv1 "[(Some k2, Some hv2)]"] by simp
qed

theorem badge_last_highlight_first_witness:
  "extract_badges [(Some ''Duration'', Some ''2 Years''), (Some ''DURATION'', Some ''3 Years'')]
      ''duration'' = Some ''3 Years''
   \<and> extract_highlights
        [(Some ''Main Subject'', Some ''Physics''), (Some ''main subject'', Some ''Chemistry'')]
      ''main subject'' = Some ''Physics''"
proof -
  have k: "lower (clean_text (Some ''Duration'')) = ''duration''"
    "lower (clean_text (Some ''DURATION'')) = ''duration''"
    "lower (clean_text (Some ''Main Subject'')) = ''main subject''"
    "lower (clean_text (Some ''main subject'')) = ''main subject''"
    by code_simp+
  have v: "badge_value (clean_text (Some ''DURATION'')) (clean_text (Some ''3 Years'')) = ''3 Years''"
    "clean_text (Some ''Physics'') = ''Physics''"
    by code_simp+
  have na: "''Physics'' \<noteq> NA" by (simp add: NA_def)
  note inst = badge_last_highlight_first
    [where ?t1.0 = "''Duration''" and ?v1.0 = "''2 Years''"
       and ?t2.0 = "''DURATION''" and ?v2.0 = "''3 Years''"
       and ?k1.0 = "''Main Subject''" and ?hv1.0 = "''Physics''"
       and ?k2.0 = "''main subject''" and ?hv2.0 = "''Chemistry''"]
  from inst k v na show ?thesis by (simp only: simp_thms)
qed

theorem highlight_first_occurrence_counterexample:
  "extract_highlights [(Some ''Main Subject'', Some []), (Some ''Main Subject'', Some ''Physics'')]
      ''main subject'' = Some ''Physics''
   \<and> extract_highlights [(Some ''Main Subject'', Some []), (Some ''Main Subject'', Some ''Physics'')]
      ''main subject'' \<noteq> Some (clean_text (Some []))"
  by code_simp

section \<open>The discipline of a course\<close>

lemma py_or_Some_nonempty: "s \<noteq> [] \<Longrightarrow> py_or (Some s) b = Some s"
  by (simp add: py_or_def)

lemma py_or_None: "py_or None b = b"
  by (simp add: py_or_def)

lemma NA_nonempty: "NA \<noteq> []"
  by (simp add: NA_def)

lemma guess_discipline_example: "guess_discipline ''MSc Computer Science''
       ''https://www.topuniversities.com/universities/x/masters/computer-science'' = ''Computer Science''"
  by code_simp

text \<open>
  Claim C10. When the highlights of a course page have no \<^verbatim>\<open>main subject\<close> entry and its
  badges bind \<^verbatim>\<open>main subject area\<close> to the sentinel, the discipline of the scraped course
  is the sentinel, whatever the course name and the URL are: the sentinel is a non-empty
  string, so the \<^verbatim>\<open>or\<close> chain stops at it and \<^verbatim>\<open>guess_discipline\<close> is not used. A badge
  whose value equals its title is stored as the sentinel, since stripping the title leaves
  the empty string.
\<close>

theorem sentinel_badge_blocks_discipline_fallback:
  "(extract_highlights (highlight_blocks page) ''main subject'' = None
    \<and> extract_badges (badge_elems page) ''main subject area'' = Some NA \<longrightarrow>
      (\<exists>c. scrape_course (Some page) course_url uid = Some c \<and> discipline c = NA))
   \<and> ((\<forall>b\<in>set post. badge_key b \<noteq> Some (lower (clean_text (Some t)))) \<longrightarrow>
        extract_badges (pre @ [(Some t, Some t)] @ post) (lower (clean_text (Some t))) = Some NA)"
proof (intro conjI impI)
  assume a: "extract_highlights (highlight_blocks page) ''main subject'' = None
    \<and> extract_badges (badge_elems page) ''main subject area'' = Some NA"
  then have "py_or (extract_highlights (highlight_blocks page) ''main subject'')
          (py_or (extract_badges (badge_elems page) ''main subject area'') g) = Some NA" for g
    by (simp add: py_or_None py_or_Some_nonempty NA_nonempty)
  then show "\<exists>c. scrape_course (Some page) course_url uid = Some c \<and> discipline c = NA"
    by (simp add: scrape_course_def Let_def clean_text_NA smart_title_case_NA)
next
  assume "\<forall>b\<in>set post. badge_key b \<noteq> Some (lower (clean_text (Some t)))"
  then show "extract_badges (pre @ [(Some t, Some t)] @ post) (lower (clean_text (Some t))) = Some NA"
    using badges_last_wins [of post t pre t] by (simp add: badge_value_same)
qed

theorem sentinel_badge_blocks_discipline_fallback_witness:
  "guess_discipline ''MSc Computer Science''
       ''https://www.topuniversities.com/universities/x/masters/computer-science''
     = ''Computer Science''
   \<and> extract_badges (badge_elems example_page) ''main subject area'' = Some ''N/A''
   \<and> (\<exists>c. scrape_course (Some example_page)
            ''https://www.topuniversities.com/universities/x/masters/computer-science'' ''U001''
          = Some c \<and> discipline c = ''N/A'')"
proof -
  have h: "extract_highlights (highlight_blocks example_page) ''main subject'' = None"
    by (simp add: example_page_def extract_highlights_def)
  have k: "lower (clean_text (Some ''Main Subject Area'')) = ''main subject area''"
    by code_simp
  have b: "extract_badges (badge_elems example_page) ''main subject area'' = Some NA"
    using sentinel_badge_blocks_discipline_fallback [of example_page _ _ "[]" "''Main Subject Area''" "[]"]
    by (simp add: example_page_def k)
  from h b sentinel_badge_blocks_discipline_fallback [of example_page
      "''https://www.topuniversities.com/universities/x/masters/computer-science''" "''U001''"]
  have "\<exists>c. scrape_course (Some example_page)
            ''https://www.topuniversities.com/universities/x/masters/computer-science'' ''U001''
          = Some c \<and> discipline c = NA"
    by blast
  with b guess_discipline_example show ?thesis by (simp add: NA_def)
qed

section \<open>The level of a course\<close>

lemma split_on_nonempty: "split_on sep s \<noteq> []"
  by (induction s) (auto split: list.splits)

lemma split_on_single: "sep \<notin> set a \<Longrightarrow> split_on sep a = [a]"
  by (induction a) auto

lemma split_on_append: "sep \<notin> set a \<Longrightarrow> split_on sep (a @ sep # b) = a # split_on sep b"
  by (induction a) auto

lemma split_scheme_base:
  "split_scheme (BASE_URL @ p) = (''https'', ''//www.topuniversities.com'' @ p)"
  by (simp add: split_scheme_def BASE_URL_def Let_def is_lower_def is_upper_def is_digit_def
      is_scheme_char_def lower_def char_lower_def)

lemma url_sanitize_base:
  "url_sanitize (BASE_URL @ p) = BASE_URL @ filter (\<lambda>c. \<not> is_unsafe_url_char c) p"
proof -
  have "dropWhile is_c0_control_or_space (BASE_URL @ p) = BASE_URL @ p"
    by (simp add: BASE_URL_def is_c0_control_or_space_def)
  moreover have "filter (\<lambda>c. \<not> is_unsafe_url_char c) BASE_URL = BASE_URL"
    by (simp add: BASE_URL_def is_unsafe_url_char_def)
  ultimately show ?thesis by (simp add: url_sanitize_def)
qed

lemma urlparse_path_base:
  "urlparse_path (BASE_URL @ p) =
     (let q = filter (\<lambda>c. \<not> is_unsafe_url_char c) p;
          after_host = dropWhile (\<lambda>c. c \<notin> set ''/?#'') (''www.topuniversities.com'' @ q)
      in split_params
           (takeWhile (\<lambda>c. c \<noteq> CHR ''?'') (takeWhile (\<lambda>c. c \<noteq> CHR ''#'') after_host)))"
  by (simp add: urlparse_path_def url_sanitize_base split_scheme_base uses_params_def Let_def)

lemma filter_safe_id:
  "\<forall>c\<in>set s. \<not> is_unsafe_url_char c \<Longrightarrow> filter (\<lambda>c. \<not> is_unsafe_url_char c) s = s"
  by (simp add: filter_id_conv)

lemma split_params_after_slash:
  "\<exists>r. split_params (a @ CHR ''/'' # b) = a @ CHR ''/'' # r"
proof -
  let ?P = "\<lambda>c. c \<noteq> CHR ''/''"
  let ?p = "a @ CHR ''/'' # b"
  have "takeWhile ?P (rev ?p) = takeWhile ?P (rev b)"
    by (auto simp: takeWhile_append takeWhile_eq_all_conv [THEN iffD2, symmetric])
  then have ls: "rev (takeWhile ?P (rev ?p)) = rev (takeWhile ?P (rev b))" by simp
  have len: "length (takeWhile ?P (rev b)) \<le> length b"
    using length_takeWhile_le [of ?P "rev b"] by simp
  have "take (length ?p - length (rev (takeWhile ?P (rev b)))) ?p
      = a @ CHR ''/'' # take (length b - length (takeWhile ?P (rev b))) b"
    using len by (simp add: Suc_diff_le)
  then show ?thesis
    unfolding split_params_def Let_def ls by simp
qed

lemma rstrip_prefix: "\<exists>k. rstrip_where P z = take k z"
proof -
  have "z = rstrip_where P z @ rev (takeWhile P (rev z))"
    unfolding rstrip_where_def
    by (metis rev_append rev_rev_ident takeWhile_dropWhile_id)
  then have "take (length (rstrip_where P z)) z = rstrip_where P z"
    by (metis append_eq_conv_conj)
  then show ?thesis by metis
qed

lemma url_level_segment_program_url:
  assumes "path_segment slug" "path_segment seg"
  shows "url_level_segment (program_url slug seg rest) = lower seg"
proof -
  let ?sl = "\<lambda>c. c = CHR ''/''"
  let ?safe = "\<lambda>c. \<not> is_unsafe_url_char c"
  from assms have slug: "CHR ''/'' \<notin> set slug" "CHR ''?'' \<notin> set slug" "CHR ''#'' \<notin> set slug"
    and seg: "seg \<noteq> []" "CHR ''/'' \<notin> set seg" "CHR ''?'' \<notin> set seg" "CHR ''#'' \<notin> set seg"
    and safe: "\<forall>c\<in>set slug. \<not> is_unsafe_url_char c" "\<forall>c\<in>set seg. \<not> is_unsafe_url_char c"
    by (auto simp: path_segment_def list_all_iff)
  define rest0 where "rest0 = filter ?safe rest"
  define rest' where
    "rest' = takeWhile (\<lambda>c. c \<noteq> CHR ''?'') (takeWhile (\<lambda>c. c \<noteq> CHR ''#'') rest0)"
  have fixed: "filter ?safe ''/universities/'' = ''/universities/''" "filter ?safe ''/'' = ''/''"
    by (simp_all add: is_unsafe_url_char_def)
  have "filter ?safe (''/universities/'' @ slug @ ''/'' @ seg @ ''/'' @ rest)
      = filter ?safe ''/universities/'' @ filter ?safe slug @ filter ?safe ''/''
        @ filter ?safe seg @ filter ?safe ''/'' @ filter ?safe rest"
    by (simp only: filter_append)
  then have san: "filter ?safe (''/universities/'' @ slug @ ''/'' @ seg @ ''/'' @ rest)
      = ''/universities/'' @ slug @ ''/'' @ seg @ ''/'' @ rest0"
    by (simp only: fixed filter_safe_id [OF safe(1)] filter_safe_id [OF safe(2)] rest0_def)
  have host: "dropWhile (\<lambda>c. c \<notin> set ''/?#'')
        (''www.topuniversities.com'' @ ''/universities/'' @ slug @ ''/'' @ seg @ ''/'' @ rest0)
      = ''/universities/'' @ slug @ ''/'' @ seg @ ''/'' @ rest0"
    by simp
  have "takeWhile (\<lambda>c. c \<noteq> CHR ''#'') (''/universities/'' @ slug @ ''/'' @ seg @ ''/'' @ rest0)
      = ''/universities/'' @ slug @ ''/'' @ seg @ ''/'' @ takeWhile (\<lambda>c. c \<noteq> CHR ''#'') rest0"
    using slug seg by (simp add: takeWhile_append)
  then have tw: "takeWhile (\<lambda>c. c \<noteq> CHR ''?'')
        (takeWhile (\<lambda>c. c \<noteq> CHR ''#'') (''/universities/'' @ slug @ ''/'' @ seg @ ''/'' @ rest0))
      = ''/universities/'' @ slug @ ''/'' @ seg @ ''/'' @ rest'"
    using slug seg by (simp add: takeWhile_append rest'_def)
  obtain r where r: "split_params ((''/universities/'' @ slug @ ''/'' @ seg) @ CHR ''/'' # rest')
      = (''/universities/'' @ slug @ ''/'' @ seg) @ CHR ''/'' # r"
    using split_params_after_slash by blast
  have "urlparse_path (BASE_URL @ ''/universities/'' @ slug @ ''/'' @ seg @ ''/'' @ rest)
      = split_params (''/universities/'' @ slug @ ''/'' @ seg @ ''/'' @ rest')"
    unfolding urlparse_path_base Let_def san host tw ..
  then have path: "urlparse_path (program_url slug seg rest)
      = ''/universities/'' @ slug @ ''/'' @ seg @ ''/'' @ r"
    using r by (simp add: program_url_def)
  obtain k where k: "rstrip_where ?sl (CHR ''/'' # r) = take k (CHR ''/'' # r)"
    using rstrip_prefix by blast
  define T where "T = rstrip_where ?sl (CHR ''/'' # r)"
  have T: "T = [] \<or> (\<exists>t. T = CHR ''/'' # t)"
    unfolding T_def k by (cases k) auto
  have keep: "rstrip_where ?sl (''universities/'' @ slug @ ''/'' @ seg) = ''universities/'' @ slug @ ''/'' @ seg"
  proof (rule rstrip_fixed)
    show "''universities/'' @ slug @ ''/'' @ seg \<noteq> []" by simp
    have "last seg \<noteq> CHR ''/''" by (metis seg(1,2) last_in_set)
    then show "\<not> last (''universities/'' @ slug @ ''/'' @ seg) = CHR ''/''"
      using seg by (simp add: last_append)
  qed
  have "strip_where ?sl (''/universities/'' @ slug @ ''/'' @ seg @ ''/'' @ r)
      = rstrip_where ?sl ((''universities/'' @ slug @ ''/'' @ seg) @ CHR ''/'' # r)"
    by (simp add: strip_where_def)
  also have "\<dots> = (''universities/'' @ slug @ ''/'' @ seg) @ T"
  proof -
    define X where "X = ''universities/'' @ slug @ ''/'' @ seg"
    have "rstrip_where ?sl X = X" using keep by (simp only: X_def)
    then have "rstrip_where ?sl (X @ CHR ''/'' # r) = X @ T"
      by (simp add: rstrip_append [of ?sl X "CHR ''/'' # r"] T_def)
    then show ?thesis by (simp only: X_def)
  qed
  finally have stripped: "strip_where ?sl (urlparse_path (program_url slug seg rest))
      = ''universities'' @ CHR ''/'' # slug @ CHR ''/'' # seg @ T"
    by (simp add: path)
  have "split_on CHR ''/'' (seg @ T) \<noteq> [] \<and> hd (split_on CHR ''/'' (seg @ T)) = seg"
    using T seg by (auto simp: split_on_single split_on_append)
  then obtain ws where ws: "split_on CHR ''/'' (seg @ T) = seg # ws"
    by (cases "split_on CHR ''/'' (seg @ T)") auto
  have "split_on CHR ''/'' (''universities'' @ CHR ''/'' # slug @ CHR ''/'' # seg @ T)
      = ''universities'' # slug # seg # ws"
  proof -
    have "CHR ''/'' \<notin> set ''universities''" by simp
    then have "split_on CHR ''/'' (''universities'' @ CHR ''/'' # slug @ CHR ''/'' # seg @ T)
        = ''universities'' # split_on CHR ''/'' (slug @ CHR ''/'' # seg @ T)"
      by (rule split_on_append)
    also have "split_on CHR ''/'' (slug @ CHR ''/'' # seg @ T) = slug # split_on CHR ''/'' (seg @ T)"
      using slug(1) by (rule split_on_append)
    finally show ?thesis by (simp only: ws)
  qed
  then show ?thesis
    unfolding url_level_segment_def stripped by simp
qed

lemma normalize_level_fallback:
  "no_level_word raw_level \<Longrightarrow>
   normalize_level raw_level course_url =
     (case map_of LEVEL_BY_SEGMENT (url_level_segment course_url) of
        Some l \<Rightarrow> l
      | None \<Rightarrow> NA)"
  by (simp add: no_level_word_def normalize_level_def Let_def)

lemma no_level_word_NA: "no_level_word NA"
  unfolding NA_def by code_simp

lemma masters_segment: "map_of LEVEL_BY_SEGMENT (lower ''masters'') = Some ''Master''"
  by code_simp

lemma path_segment_masters: "path_segment ''masters''"
  by code_simp

text \<open>
  Claim C7. \<^verbatim>\<open>normalize_level\<close> looks in the lower-cased, cleaned study-level text for
  undergraduate or bachelor, then postgraduate or master, then phd or doctoral, then
  diploma, then certificate, then mba, and the first of these that is found decides the
  level. When none is found, which is the case for the sentinel that stands for an absent
  signal, the level is read from the table \<^verbatim>\<open>LEVEL_BY_SEGMENT\<close> at the third path segment of
  the URL, lower-cased, and is the sentinel when the table has no such key. For a URL of the
  program-link form that segment is the one after the slug, so a link with segment
  \<^verbatim>\<open>masters\<close> and no level text gives \<^verbatim>\<open>Master\<close>, also as the level of the scraped course.
  The path is read as the standard library reads it: leading blanks of the URL and every
  TAB, CR and LF in it do not count.
\<close>

theorem level_priority_then_url_segment:
  "(let val = lower (clean_text (Some raw_level));
        ug = (contains val ''undergraduate'' \<or> contains val ''bachelor'');
        pg = (contains val ''postgraduate'' \<or> contains val ''master'');
        dr = (contains val ''phd'' \<or> contains val ''doctoral'');
        dp = contains val ''diploma'';
        ce = contains val ''certificate'';
        mb = contains val ''mba'';
        lvl = normalize_level raw_level course_url
    in (ug \<longrightarrow> lvl = ''Bachelor'')
       \<and> (\<not> ug \<and> pg \<longrightarrow> lvl = ''Master'')
       \<and> (\<not> ug \<and> \<not> pg \<and> dr \<longrightarrow> lvl = ''PhD'')
       \<and> (\<not> ug \<and> \<not> pg \<and> \<not> dr \<and> dp \<longrightarrow> lvl = ''Diploma'')
       \<and> (\<not> ug \<and> \<not> pg \<and> \<not> dr \<and> \<not> dp \<and> ce \<longrightarrow> lvl = ''Certificate'')
       \<and> (\<not> ug \<and> \<not> pg \<and> \<not> dr \<and> \<not> dp \<and> \<not> ce \<and> mb \<longrightarrow> lvl = ''MBA'')
       \<and> (\<not> ug \<and> \<not> pg \<and> \<not> dr \<and> \<not> dp \<and> \<not> ce \<and> \<not> mb \<longrightarrow>
            no_level_word raw_level
            \<and> lvl = (case map_of LEVEL_BY_SEGMENT (url_level_segment course_url) of
                       Some l \<Rightarrow> l
                     | None \<Rightarrow> NA)))
   \<and> no_level_word NA
   \<and> (path_segment slug \<and> path_segment seg \<and> no_level_word raw_level \<longrightarrow>
        normalize_level raw_level (program_url slug seg rest)
          = (case map_of LEVEL_BY_SEGMENT (lower seg) of Some l \<Rightarrow> l | None \<Rightarrow> NA))
   \<and> (path_segment slug \<and> no_level_word raw_level \<longrightarrow>
        normalize_level raw_level (program_url slug ''masters'' rest) = ''Master'')
   \<and> (path_segment slug
        \<and> extract_highlights (highlight_blocks page) ''study level'' = None \<longrightarrow>
        (\<exists>c. scrape_course (Some page) (program_url slug ''masters'' rest) uid = Some c
              \<and> level c = ''Master''))
   \<and> normalize_level NA '' https://www.topuniversities.com/universities/x/masters/y'' = ''Master''
   \<and> normalize_level NA (program_url ''x'' (''mas'' @ [CHR 0x09] @ ''ters'') ''y'') = ''Master''"
proof (intro conjI)
  show "let val = lower (clean_text (Some raw_level));
        ug = (contains val ''undergraduate'' \<or> contains val ''bachelor'');
        pg = (contains val ''postgraduate'' \<or> contains val ''master'');
        dr = (contains val ''phd'' \<or> contains val ''doctoral'');
        dp = contains val ''diploma'';
        ce = contains val ''certificate'';
        mb = contains val ''mba'';
        lvl = normalize_level raw_level course_url
    in (ug \<longrightarrow> lvl = ''Bachelor'')
       \<and> (\<not> ug \<and> pg \<longrightarrow> lvl = ''Master'')
       \<and> (\<not> ug \<and> \<not> pg \<and> dr \<longrightarrow> lvl = ''PhD'')
       \<and> (\<not> ug \<and> \<not> pg \<and> \<not> dr \<and> dp \<longrightarrow> lvl = ''Diploma'')
       \<and> (\<not> ug \<and> \<not> pg \<and> \<not> dr \<and> \<not> dp \<and> ce \<longrightarrow> lvl = ''Certificate'')
       \<and> (\<not> ug \<and> \<not> pg \<and> \<not> dr \<and> \<not> dp \<and> \<not> ce \<and> mb \<longrightarrow> lvl = ''MBA'')
       \<and> (\<not> ug \<and> \<not> pg \<and> \<not> dr \<and> \<not> dp \<and> \<not> ce \<and> \<not> mb \<longrightarrow>
            no_level_word raw_level
            \<and> lvl = (case map_of LEVEL_BY_SEGMENT (url_level_segment course_url) of
                       Some l \<Rightarrow> l
                     | None \<Rightarrow> NA))"
    by (simp add: Let_def normalize_level_def no_level_word_def)
  show "no_level_word NA" by (rule no_level_word_NA)
  show "path_segment slug \<and> path_segment seg \<and> no_level_word raw_level \<longrightarrow>
        normalize_level raw_level (program_url slug seg rest)
          = (case map_of LEVEL_BY_SEGMENT (lower seg) of Some l \<Rightarrow> l | None \<Rightarrow> NA)"
    by (simp add: normalize_level_fallback url_level_segment_program_url)
  show "path_segment slug \<and> no_level_word raw_level \<longrightarrow>
        normalize_level raw_level (program_url slug ''masters'' rest) = ''Master''"
    using path_segment_masters masters_segment
    by (simp add: normalize_level_fallback url_level_segment_program_url)
  show "path_segment slug
        \<and> extract_highlights (highlight_blocks page) ''study level'' = None \<longrightarrow>
        (\<exists>c. scrape_course (Some page) (program_url slug ''masters'' rest) uid = Some c
              \<and> level c = ''Master'')"
    using path_segment_masters masters_segment no_level_word_NA
    by (simp add: scrape_course_def Let_def normalize_level_fallback url_level_segment_program_url)
  show "normalize_level NA '' https://www.topuniversities.com/universities/x/masters/y'' = ''Master''"
    unfolding NA_def by code_simp
  show "normalize_level NA (program_url ''x'' (''mas'' @ [CHR 0x09] @ ''ters'') ''y'') = ''Master''"
    unfolding NA_def by code_simp
qed

theorem level_priority_then_url_segment_witness:
  "normalize_level ''Postgraduate Diploma'' [] = ''Master''
   \<and> program_url ''university-hyderabad'' ''masters'' ''engineering-x''
       = ''https://www.topuniversities.com/universities/university-hyderabad/masters/engineering-x''
   \<and> normalize_level ''N/A''
        ''https://www.topuniversities.com/universities/university-hyderabad/masters/engineering-x''
       = ''Master''"
proof -
  have v: "lower (clean_text (Some ''Postgraduate Diploma'')) = ''postgraduate diploma''"
    by code_simp
  have c: "\<not> contains ''postgraduate diploma'' ''undergraduate''"
    "\<not> contains ''postgraduate diploma'' ''bachelor''"
    "contains ''postgraduate diploma'' ''postgraduate''"
    by code_simp+
  note inst = level_priority_then_url_segment
      [of "''Postgraduate Diploma''" "[]", THEN conjunct1, unfolded Let_def v]
  from inst c have 1: "normalize_level ''Postgraduate Diploma'' [] = ''Master''"
    by blast
  have u: "program_url ''university-hyderabad'' ''masters'' ''engineering-x''
       = ''https://www.topuniversities.com/universities/university-hyderabad/masters/engineering-x''"
    by (simp add: program_url_def BASE_URL_def)
  have s: "path_segment ''university-hyderabad''" by code_simp
  have "normalize_level NA (program_url ''university-hyderabad'' ''masters'' ''engineering-x'')
       = ''Master''"
    using level_priority_then_url_segment
      [where raw_level = NA and slug = "''university-hyderabad''" and rest = "''engineering-x''"] s
    by blast
  with 1 u show ?thesis by (simp add: NA_def)
qed

section \<open>The location cell\<close>

lemma strip_brackets_plain: "CHR ''['' \<notin> set s \<Longrightarrow> strip_brackets s = s"
  by (induction s) auto

lemma strip_brackets_citation:
  assumes "CHR ''['' \<notin> set x" "CHR '']'' \<notin> set m"
  shows "strip_brackets (x @ CHR ''['' # m @ CHR '']'' # y) = x @ strip_brackets y"
  using assms(1)
proof (induction x)
  case Nil
  have "dropWhile (\<lambda>c. c \<noteq> CHR '']'') (m @ CHR '']'' # y) = CHR '']'' # y"
    using assms(2) by (auto simp: dropWhile_append)
  then show ?case by simp
next
  case (Cons c cs)
  then show ?case by auto
qed

lemma split_on_join:
  "segs \<noteq> [] \<Longrightarrow> \<forall>s\<in>set segs. sep \<notin> set s \<Longrightarrow> split_on sep (join [sep] segs) = segs"
proof (induction "[sep]" segs rule: join.induct)
  case 1
  then show ?case by simp
next
  case (2 x)
  then show ?case by (simp add: split_on_single)
next
  case (3 x y ys)
  then show ?case by (simp add: split_on_append)
qed

lemma set_join: "set (join sep segs) \<subseteq> set sep \<union> \<Union> (set ` set segs)"
  by (induction sep segs rule: join.induct) auto

lemma city_country_of_segments:
  assumes "segs \<noteq> []" "\<forall>s\<in>set segs. CHR '','' \<notin> set s \<and> CHR ''['' \<notin> set s"
    and "join '','' segs \<noteq> NA"
  shows "city_country_of_location (join '','' segs) =
     (let kept = filter keep_part (map (\<lambda>p. clean_text (Some p)) segs)
      in (case kept of
            [] \<Rightarrow> (NA, NA)
          | [only] \<Rightarrow> (smart_title_case only, NA)
          | first # _ \<Rightarrow> (smart_title_case first, smart_title_case (last kept))))"
proof -
  have "CHR ''['' \<notin> set (join '','' segs)"
    using set_join [of "'',''" segs] assms(2) by auto
  then have e1: "strip_brackets (join '','' segs) = join '','' segs"
    by (rule strip_brackets_plain)
  have e2: "split_on CHR '','' (join '','' segs) = segs"
    using assms(1,2) by (intro split_on_join) auto
  show ?thesis
    unfolding city_country_of_location_def Let_def e1 e2 using assms(3) by simp
qed

lemma first_last_survive:
  assumes "keep_part a" "keep_part b"
  shows "(case filter keep_part (a # mid @ [b]) of
            [] \<Rightarrow> (NA, NA)
          | [only] \<Rightarrow> (f only, NA)
          | first # _ \<Rightarrow> (f first, f (last (filter keep_part (a # mid @ [b])))))
         = (f a, f b)"
proof -
  have "filter keep_part (a # mid @ [b]) = a # filter keep_part mid @ [b]"
    using assms by simp
  then show ?thesis by (cases "filter keep_part mid") simp_all
qed

lemma extract_city_country_location_row:
  "lower (clean_text (Some label)) \<in> {''location'', ''address''} \<Longrightarrow>
   extract_city_country_from_wikipedia (Some ((Some label, Some cell) # rows))
     = city_country_of_location (clean_text (Some cell))"
  by (simp add: extract_city_country_from_wikipedia_def)

text \<open>
  Claim C6, as amended. For the location cell \<^verbatim>\<open>Hyderabad, Telangana, India[1]\<close> the parser
  returns city \<^verbatim>\<open>Hyderabad\<close> and country \<^verbatim>\<open>India\<close>. It works on the cleaned text of the
  cell of the first row labelled location or address: a bracketed marker is removed, the
  text is split on commas and each segment is cleaned; a segment is dropped when it is
  empty (its cleaned text is the sentinel) or contains a digit or a lone compass letter.
  City and country are the first and the last surviving segment, each passed through
  \<^verbatim>\<open>smart_title_case\<close> (title casing and country aliases); whatever stands between a
  surviving first and a surviving last segment has no influence. A single survivor gives
  the city, with the sentinel as country; no survivor, or no infobox, gives the sentinel
  twice.
\<close>

theorem location_first_and_last_segment:
  "extract_city_country_from_wikipedia
      (Some [(Some ''Location'', Some ''Hyderabad, Telangana, India[1]'')])
     = (''Hyderabad'', ''India'')
   \<and> extract_city_country_from_wikipedia None = (NA, NA)
   \<and> (lower (clean_text (Some label)) \<in> {''location'', ''address''} \<longrightarrow>
        extract_city_country_from_wikipedia (Some ((Some label, Some cell) # rows))
          = city_country_of_location (clean_text (Some cell)))
   \<and> (CHR ''['' \<notin> set x \<and> CHR '']'' \<notin> set m \<longrightarrow>
        strip_brackets (x @ ''['' @ m @ '']'' @ y) = x @ strip_brackets y)
   \<and> \<not> keep_part (clean_text (Some []))
   \<and> (segs \<noteq> [] \<and> (\<forall>s\<in>set segs. CHR '','' \<notin> set s \<and> CHR ''['' \<notin> set s)
        \<and> join '','' segs \<noteq> NA \<longrightarrow>
        city_country_of_location (join '','' segs) =
          (let kept = filter keep_part (map (\<lambda>p. clean_text (Some p)) segs)
           in (case kept of
                 [] \<Rightarrow> (NA, NA)
               | [only] \<Rightarrow> (smart_title_case only, NA)
               | first # _ \<Rightarrow> (smart_title_case first, smart_title_case (last kept)))))
   \<and> ((\<forall>s\<in>set (a # mid @ [b]). CHR '','' \<notin> set s \<and> CHR ''['' \<notin> set s)
        \<and> join '','' (a # mid @ [b]) \<noteq> NA
        \<and> keep_part (clean_text (Some a)) \<and> keep_part (clean_text (Some b)) \<longrightarrow>
        city_country_of_location (join '','' (a # mid @ [b]))
          = (smart_title_case (clean_text (Some a)), smart_title_case (clean_text (Some b))))"
proof (intro conjI impI)
  show "extract_city_country_from_wikipedia
      (Some [(Some ''Location'', Some ''Hyderabad, Telangana, India[1]'')])
     = (''Hyderabad'', ''India'')"
    by code_simp
  show "extract_city_country_from_wikipedia None = (NA, NA)"
    by (simp add: extract_city_country_from_wikipedia_def)
  show "extract_city_country_from_wikipedia (Some ((Some label, Some cell) # rows))
          = city_country_of_location (clean_text (Some cell))"
    if "lower (clean_text (Some label)) \<in> {''location'', ''address''}"
    using that by (rule extract_city_country_location_row)
  show "strip_brackets (x @ ''['' @ m @ '']'' @ y) = x @ strip_brackets y"
    if "CHR ''['' \<notin> set x \<and> CHR '']'' \<notin> set m"
    using that strip_brackets_citation [of x m y] by simp
  show "\<not> keep_part (clean_text (Some []))"
    by (simp add: keep_part_def clean_text_blank)
next
  assume "segs \<noteq> [] \<and> (\<forall>s\<in>set segs. CHR '','' \<notin> set s \<and> CHR ''['' \<notin> set s)
        \<and> join '','' segs \<noteq> NA"
  then show "city_country_of_location (join '','' segs) =
          (let kept = filter keep_part (map (\<lambda>p. clean_text (Some p)) segs)
           in (case kept of
                 [] \<Rightarrow> (NA, NA)
               | [only] \<Rightarrow> (smart_title_case only, NA)
               | first # _ \<Rightarrow> (smart_title_case first, smart_title_case (last kept))))"
    using city_country_of_segments [of segs] by blast
next
  assume h: "(\<forall>s\<in>set (a # mid @ [b]). CHR '','' \<notin> set s \<and> CHR ''['' \<notin> set s)
        \<and> join '','' (a # mid @ [b]) \<noteq> NA
        \<and> keep_part (clean_text (Some a)) \<and> keep_part (clean_text (Some b))"
  then have "city_country_of_location (join '','' (a # mid @ [b])) =
          (let kept = filter keep_part (map (\<lambda>p. clean_text (Some p)) (a # mid @ [b]))
           in (case kept of
                 [] \<Rightarrow> (NA, NA)
               | [only] \<Rightarrow> (smart_title_case only, NA)
               | first # _ \<Rightarrow> (smart_title_case first, smart_title_case (last kept))))"
    by (intro city_country_of_segments) auto
  also have "\<dots> = (smart_title_case (clean_text (Some a)), smart_title_case (clean_text (Some b)))"
    using h first_last_survive [of "clean_text (Some a)" "clean_text (Some b)" smart_title_case
        "map (\<lambda>p. clean_text (Some p)) mid"]
    by (simp add: Let_def)
  finally show "city_country_of_location (join '','' (a # mid @ [b]))
          = (smart_title_case (clean_text (Some a)), smart_title_case (clean_text (Some b)))" .
qed

theorem location_first_and_last_segment_witness:
  "join '','' [''Chennai'', '' Tamil Nadu'', '' india''] = ''Chennai, Tamil Nadu, india''
   \<and> city_country_of_location ''Chennai, Tamil Nadu, india'' = (''Chennai'', ''India'')"
proof -
  have j: "join '','' (''Chennai'' # ['' Tamil Nadu''] @ ['' india'']) = ''Chennai, Tamil Nadu, india''"
    by simp
  have c: "\<forall>s\<in>set (''Chennai'' # ['' Tamil Nadu''] @ ['' india'']).
        CHR '','' \<notin> set s \<and> CHR ''['' \<notin> set s"
    by simp
  have n: "''Chennai, Tamil Nadu, india'' \<noteq> NA" by (simp add: NA_def)
  have k: "keep_part (clean_text (Some ''Chennai''))" "keep_part (clean_text (Some '' india''))"
    by code_simp+
  have t: "smart_title_case (clean_text (Some ''Chennai'')) = ''Chennai''"
    "smart_title_case (clean_text (Some '' india'')) = ''India''"
    by code_simp+
  note inst = location_first_and_last_segment
      [where a = "''Chennai''" and mid = "['' Tamil Nadu'']" and b = "'' india''"]
  from inst c n k have "city_country_of_location (join '','' (''Chennai'' # ['' Tamil Nadu''] @ ['' india'']))
      = (smart_title_case (clean_text (Some ''Chennai'')), smart_title_case (clean_text (Some '' india'')))"
    unfolding j by blast
  then show ?thesis unfolding j t by simp
qed

theorem location_segments_counterexample:
  "extract_city_country_from_wikipedia (Some [(Some ''Location'', Some ''London, England'')])
     = (''London'', ''United Kingdom'')
   \<and> claimed_city_country ''London, England'' = (''London'', ''England'')
   \<and> extract_city_country_from_wikipedia (Some [(Some ''Location'', Some ''Hyderabad, India, [1]'')])
     = (''Hyderabad'', ''India'')
   \<and> claimed_city_country ''Hyderabad, India, [1]'' = (''Hyderabad'', [])"
  by code_simp

section \<open>Identifiers\<close>

lemma of_char_digit_char: "d < 10 \<Longrightarrow> (of_char (digit_char d) :: nat) = 48 + d"
  by (simp add: digit_char_def)

lemma nat_of_digits_snoc:
  "nat_of_digits (s @ [c]) = 10 * nat_of_digits s + ((of_char c :: nat) - 48)"
  by (simp add: nat_of_digits_def)

lemma nat_of_digits_str_nat: "nat_of_digits (str_nat n) = n"
proof (induction n rule: str_nat.induct)
  case (1 n)
  show ?case
  proof (cases "n < 10")
    case True
    then show ?thesis
      by (subst str_nat.simps) (simp add: nat_of_digits_def of_char_digit_char)
  next
    case False
    then have "str_nat n = str_nat (n div 10) @ [digit_char (n mod 10)]"
      by (subst str_nat.simps) simp
    then show ?thesis
      using 1 False by (simp add: nat_of_digits_snoc of_char_digit_char)
  qed
qed

lemma nat_of_digits_zeros: "nat_of_digits (replicate k CHR ''0'' @ s) = nat_of_digits s"
proof -
  have "foldl (\<lambda>a c. 10 * a + ((of_char c :: nat) - 48)) 0 (replicate k CHR ''0'') = 0"
    by (induction k) simp_all
  then show ?thesis by (simp add: nat_of_digits_def)
qed

lemma nat_of_digits_zero_pad: "nat_of_digits (zero_pad w (str_nat n)) = n"
  by (simp add: zero_pad_def nat_of_digits_zeros nat_of_digits_str_nat)

lemma format_university_id_inj: "format_university_id a = format_university_id b \<Longrightarrow> a = b"
proof -
  assume "format_university_id a = format_university_id b"
  then have "zero_pad 3 (str_nat a) = zero_pad 3 (str_nat b)"
    by (simp add: format_university_id_def)
  then have "nat_of_digits (zero_pad 3 (str_nat a)) = nat_of_digits (zero_pad 3 (str_nat b))"
    by simp
  then show "a = b" by (simp only: nat_of_digits_zero_pad)
qed

lemma format_course_id_inj: "format_course_id a = format_course_id b \<Longrightarrow> a = b"
proof -
  assume "format_course_id a = format_course_id b"
  then have "zero_pad 4 (str_nat a) = zero_pad 4 (str_nat b)"
    by (simp add: format_course_id_def)
  then have "nat_of_digits (zero_pad 4 (str_nat a)) = nat_of_digits (zero_pad 4 (str_nat b))"
    by simp
  then show "a = b" by (simp only: nat_of_digits_zero_pad)
qed

lemma digit_char_not_space: "d < 10 \<Longrightarrow> \<not> is_space (digit_char d)"
  by (simp add: is_space_def of_char_digit_char)

lemma str_nat_not_space: "c \<in> set (str_nat n) \<Longrightarrow> \<not> is_space c"
proof (induction n arbitrary: c rule: str_nat.induct)
  case (1 n)
  show ?case
  proof (cases "n < 10")
    case True
    with "1.prems" have "c = digit_char n" by (subst (asm) str_nat.simps) simp
    with True show ?thesis by (simp add: digit_char_not_space)
  next
    case False
    with "1.prems" have "c \<in> set (str_nat (n div 10)) \<or> c = digit_char (n mod 10)"
      by (subst (asm) str_nat.simps) auto
    with 1 False show ?thesis by (auto simp: digit_char_not_space)
  qed
qed

lemma zero_not_space: "\<not> is_space CHR ''0''"
  by (simp add: is_space_def)

lemma zero_pad_not_space: "c \<in> set (zero_pad w (str_nat n)) \<Longrightarrow> \<not> is_space c"
  using zero_not_space by (auto simp: zero_pad_def str_nat_not_space)

lemma clean_text_spaceless:
  assumes "s \<noteq> []" "\<forall>c\<in>set s. \<not> is_space c"
  shows "clean_text (Some s) = s"
proof -
  have "collapse_ws (s @ []) = s @ collapse_ws []"
    using assms(2) by (rule collapse_ws_word)
  then have c: "collapse_ws s = s" by simp
  have "strip s = s"
  proof (rule strip_fixed)
    show "s \<noteq> []" by (rule assms(1))
    then have "hd s \<in> set s" "last s \<in> set s" by simp_all
    with assms(2) show "\<not> is_space (hd s)" "\<not> is_space (last s)" by blast+
  qed
  with c assms(1) show ?thesis by (simp add: clean_text_def)
qed

lemma clean_format_university_id:
  "clean_text (Some (format_university_id n)) = format_university_id n"
proof (rule clean_text_spaceless)
  show "format_university_id n \<noteq> []" by (simp add: format_university_id_def)
  show "\<forall>c\<in>set (format_university_id n). \<not> is_space c"
  proof
    fix c assume "c \<in> set (format_university_id n)"
    then have "c = CHR ''U'' \<or> c \<in> set (zero_pad 3 (str_nat n))"
      by (simp add: format_university_id_def)
    then show "\<not> is_space c"
    proof
      assume "c = CHR ''U''"
      then show ?thesis by (simp add: is_space_def)
    next
      assume "c \<in> set (zero_pad 3 (str_nat n))"
      then show ?thesis by (rule zero_pad_not_space)
    qed
  qed
qed

section \<open>Title casing\<close>

lemma py_split_drop: "py_split (dropWhile is_space s) = py_split s"
  by (subst py_split.simps, subst (2) py_split.simps) simp

lemma py_split_word:
  assumes "w \<noteq> []" "\<forall>c\<in>set w. \<not> is_space c" "r = [] \<or> is_space (hd r)"
  shows "py_split (w @ r) = w # py_split r"
proof -
  obtain c cs where w: "w = c # cs" using assms(1) by (cases w) auto
  with assms(2) have c: "\<not> is_space c" and cs: "\<forall>x\<in>set cs. \<not> is_space x" by auto
  have d: "dropWhile is_space (w @ r) = c # (cs @ r)" using w c by simp
  have tw: "takeWhile (\<lambda>x. \<not> is_space x) (c # (cs @ r)) = w"
  proof (cases r)
    case Nil
    then show ?thesis using w c cs by simp
  next
    case (Cons e es)
    with assms(3) have "is_space e" by simp
    then show ?thesis using w c cs Cons by (simp add: takeWhile_append)
  qed
  have dw: "dropWhile (\<lambda>x. \<not> is_space x) (cs @ r) = r"
  proof (cases r)
    case Nil
    then show ?thesis using cs by simp
  next
    case (Cons e es)
    with assms(3) have "is_space e" by simp
    then show ?thesis using cs Cons by (simp add: dropWhile_append)
  qed
  show ?thesis
    using py_split_Cons [OF d] by (simp only: tw dw)
qed

lemma py_split_blank_Cons: "py_split (CHR '' '' # s) = py_split s"
  using py_split_drop [of "CHR '' '' # s"] py_split_drop [of s] by simp

lemma py_split_join:
  "\<forall>w\<in>set ws. w \<noteq> [] \<and> (\<forall>c\<in>set w. \<not> is_space c) \<Longrightarrow> py_split (join '' '' ws) = ws"
proof (induction "'' ''" ws rule: join.induct)
  case 1
  show ?case by (simp add: py_split_Nil)
next
  case (2 x)
  then show ?case using py_split_word [of x "[]"] by (simp add: py_split_Nil)
next
  case (3 x y ys)
  then have "py_split (x @ CHR '' '' # join '' '' (y # ys)) = x # py_split (CHR '' '' # join '' '' (y # ys))"
    by (intro py_split_word) auto
  with 3 show ?case by (simp add: py_split_blank_Cons)
qed

lemma py_split_words_spaceless: "w \<in> set (py_split s) \<Longrightarrow> c \<in> set w \<Longrightarrow> \<not> is_space c"
proof (induction s arbitrary: w rule: py_split.induct)
  case (1 s)
  show ?case
  proof (cases "dropWhile is_space s")
    case Nil
    then have "py_split s = []" by (rule py_split_Nil)
    with "1.prems" show ?thesis by simp
  next
    case (Cons d ds)
    from "1.prems"(1) have "w = takeWhile (\<lambda>x. \<not> is_space x) (d # ds)
         \<or> w \<in> set (py_split (dropWhile (\<lambda>x. \<not> is_space x) ds))"
      by (simp only: py_split_Cons [OF Cons] set_simps insert_iff)
    then show ?thesis
    proof
      assume "w = takeWhile (\<lambda>x. \<not> is_space x) (d # ds)"
      with "1.prems"(2) show ?thesis by (auto dest: set_takeWhileD)
    next
      assume "w \<in> set (py_split (dropWhile (\<lambda>x. \<not> is_space x) ds))"
      from "1.IH" [OF Cons this "1.prems"(2)] show ?thesis .
    qed
  qed
qed

lemma char_lower_not_upper: "\<not> is_upper (char_lower c)"
  by (auto simp: char_lower_def is_upper_def Let_def)

lemma char_lower_idem: "char_lower (char_lower c) = char_lower c"
  by (auto simp: char_lower_def is_upper_def Let_def)

lemma char_upper_idem: "char_upper (char_upper c) = char_upper c"
  by (auto simp: char_upper_def is_lower_def Let_def)

lemma char_lower_upper: "char_lower (char_upper c) = char_lower c"
  by (auto simp: char_lower_def char_upper_def is_lower_def is_upper_def Let_def)

lemma char_lower_space: "is_space (char_lower c) = is_space c"
  by (auto simp: char_lower_def is_upper_def is_space_def Let_def)

lemma char_upper_space: "is_space (char_upper c) = is_space c"
  by (auto simp: char_upper_def is_lower_def is_space_def Let_def)

lemma lower_idem: "lower (lower w) = lower w"
  by (simp add: lower_def char_lower_idem)

lemma isupper_lower: "\<not> isupper (lower w)"
  by (simp add: isupper_def lower_def list_ex_iff char_lower_not_upper)

lemma capitalize_idem: "capitalize (capitalize w) = capitalize w"
  by (cases w) (simp_all add: char_upper_idem char_lower_idem)

lemma lower_capitalize: "lower (capitalize w) = lower w"
  by (cases w) (simp_all add: lower_def char_lower_upper char_lower_idem)

lemma title_word_idem: "title_word i (title_word i w) = title_word i w"
  by (auto simp: title_word_def lower_idem isupper_lower capitalize_idem lower_capitalize)

lemma title_word_shape:
  assumes "w \<noteq> []" "\<forall>c\<in>set w. \<not> is_space c"
  shows "title_word i w \<noteq> [] \<and> (\<forall>c\<in>set (title_word i w). \<not> is_space c)"
proof -
  have "lower w \<noteq> [] \<and> (\<forall>c\<in>set (lower w). \<not> is_space c)"
    using assms by (auto simp: lower_def char_lower_space)
  moreover have "capitalize w \<noteq> [] \<and> (\<forall>c\<in>set (capitalize w). \<not> is_space c)"
    using assms by (cases w) (auto simp: char_lower_space char_upper_space)
  ultimately show ?thesis using assms by (simp add: title_word_def)
qed

lemma title_words_idem:
  "map (\<lambda>(i, word). title_word i word)
     (enumerate n (map (\<lambda>(i, word). title_word i word) (enumerate n ws)))
   = map (\<lambda>(i, word). title_word i word) (enumerate n ws)"
  by (induction ws arbitrary: n) (simp_all add: title_word_idem)

lemma title_words_shape:
  "\<forall>w\<in>set ws. w \<noteq> [] \<and> (\<forall>c\<in>set w. \<not> is_space c) \<Longrightarrow>
   \<forall>w\<in>set (map (\<lambda>(i, word). title_word i word) (enumerate n ws)).
      w \<noteq> [] \<and> (\<forall>c\<in>set w. \<not> is_space c)"
proof (induction ws arbitrary: n)
  case Nil
  show ?case by simp
next
  case (Cons w ws)
  then have "title_word n w \<noteq> [] \<and> (\<forall>c\<in>set (title_word n w). \<not> is_space c)"
    by (intro title_word_shape) auto
  moreover have "\<forall>w\<in>set (map (\<lambda>(i, word). title_word i word) (enumerate (Suc n) ws)).
      w \<noteq> [] \<and> (\<forall>c\<in>set w. \<not> is_space c)"
    using Cons by simp
  ultimately show ?case by simp
qed

lemma alias_values:
  "map_of COUNTRY_ALIASES t = Some a \<Longrightarrow> a = ''United States'' \<or> a = ''United Kingdom''"
  by (auto simp: COUNTRY_ALIASES_def split: if_splits)

lemma smart_title_case_alias_values:
  "smart_title_case ''United States'' = ''United States''"
  "smart_title_case ''United Kingdom'' = ''United Kingdom''"
  by code_simp+

lemma smart_title_case_idem: "smart_title_case (smart_title_case t) = smart_title_case t"
proof (cases "clean_text (Some t) = NA")
  case True
  then have "smart_title_case t = NA" by (simp add: smart_title_case_def)
  then show ?thesis by (simp add: smart_title_case_NA)
next
  case False
  define ws where "ws = py_split (clean_text (Some t))"
  define tws where "tws = map (\<lambda>(i, word). title_word i word) (enumerate 0 ws)"
  define titled where "titled = join '' '' tws"
  have st: "smart_title_case t =
      (case map_of COUNTRY_ALIASES titled of Some a \<Rightarrow> a | None \<Rightarrow> titled)"
    using False
    by (simp add: smart_title_case_def Let_def titled_def tws_def ws_def cong: option.case_cong)
  show ?thesis
  proof (cases "map_of COUNTRY_ALIASES titled")
    case (Some a)
    with st have "smart_title_case t = a" by simp
    with alias_values [OF Some] show ?thesis
      by (auto simp: smart_title_case_alias_values)
  next
    case None
    with st have eq: "smart_title_case t = titled" by simp
    have ws: "\<forall>w\<in>set ws. w \<noteq> [] \<and> (\<forall>c\<in>set w. \<not> is_space c)"
      unfolding ws_def using py_split_words_nonempty py_split_words_spaceless by blast
    then have tws: "\<forall>w\<in>set tws. w \<noteq> [] \<and> (\<forall>c\<in>set w. \<not> is_space c)"
      unfolding tws_def by (rule title_words_shape)
    then have sp: "py_split titled = tws"
      unfolding titled_def by (rule py_split_join)
    show ?thesis
    proof (cases "tws = []")
      case True
      then have "titled = []" by (simp add: titled_def)
      then have "smart_title_case titled = NA"
        by (simp add: smart_title_case_def clean_text_blank)
      moreover have "length tws = length ws" by (simp add: tws_def)
      with True have "ws = []" by simp
      then have "clean_text (Some (clean_text (Some t))) = NA"
        unfolding ws_def by (simp add: clean_text_split)
      then have "clean_text (Some t) = NA" by (simp add: clean_text_idem)
      ultimately show ?thesis using False by simp
    next
      case ne: False
      have ct: "clean_text (Some titled) = titled"
        using ne sp by (simp add: clean_text_split titled_def)
      show ?thesis
      proof (cases "titled = NA")
        case True
        then show ?thesis using eq by (simp add: smart_title_case_NA)
      next
        case nna: False
        have "map (\<lambda>(i, word). title_word i word) (enumerate 0 (py_split titled)) = tws"
          unfolding sp unfolding tws_def by (rule title_words_idem)
        then have "smart_title_case titled =
            (case map_of COUNTRY_ALIASES titled of Some a \<Rightarrow> a | None \<Rightarrow> titled)"
          using nna ct by (simp add: smart_title_case_def Let_def titled_def cong: option.case_cong)
        with None eq show ?thesis by simp
      qed
    qed
  qed
qed

lemma title_cased_location:
  "title_cased (fst (extract_city_country_from_wikipedia infobox))
   \<and> title_cased (snd (extract_city_country_from_wikipedia infobox))"
  by (auto simp: title_cased_def extract_city_country_from_wikipedia_def
      city_country_of_location_def Let_def smart_title_case_idem smart_title_case_NA
      split: option.splits list.splits)

section \<open>The run: reconciliation, retention and the two tables\<close>

lemma university_record_retained:
  "university_record uid (topuni_meta obs) (wiki_meta obs) = Some u \<Longrightarrow>
   university_id u = uid \<and> country u = TARGET_COUNTRY \<and> normalized_country obs = TARGET_COUNTRY"
  by (auto simp: university_record_def normalized_country_def Let_def
      split: prod.splits if_splits)

lemma university_record_iff:
  "(university_record uid (topuni_meta obs) (wiki_meta obs) \<noteq> None)
     = (normalized_country obs = TARGET_COUNTRY)"
  by (auto simp: university_record_def normalized_country_def Let_def
      split: prod.splits if_splits)

lemma drop_duplicates_subset: "set (drop_duplicates key seen xs) \<subseteq> set xs"
  by (induction xs arbitrary: seen) auto

lemma scrape_targets_universities:
  "scrape_targets idx targets us cs keys = (us', cs') \<Longrightarrow> u \<in> set us' \<Longrightarrow>
   u \<in> set us \<or>
   (\<exists>i<length targets. \<exists>obs. targets ! i = Some obs
      \<and> university_record (format_university_id (idx + i)) (topuni_meta obs) (wiki_meta obs) = Some u)"
proof (induction targets arbitrary: idx us cs keys)
  case Nil
  then show ?case by simp
next
  case (Cons t rest)
  show ?case
  proof (cases t)
    case None
    with Cons.prems have "scrape_targets (idx + 1) rest us cs keys = (us', cs')" by simp
    from Cons.IH [OF this Cons.prems(2)] show ?thesis
    proof
      assume "u \<in> set us" then show ?thesis ..
    next
      assume "\<exists>i<length rest. \<exists>obs. rest ! i = Some obs
        \<and> university_record (format_university_id (idx + 1 + i)) (topuni_meta obs) (wiki_meta obs) = Some u"
      then obtain i obs where "i < length rest" "rest ! i = Some obs"
        "university_record (format_university_id (idx + 1 + i)) (topuni_meta obs) (wiki_meta obs) = Some u"
        by blast
      then have "Suc i < length (t # rest) \<and> (t # rest) ! Suc i = Some obs
        \<and> university_record (format_university_id (idx + Suc i)) (topuni_meta obs) (wiki_meta obs) = Some u"
        by simp
      then show ?thesis by blast
    qed
  next
    case (Some obs0)
    show ?thesis
    proof (cases "university_record (format_university_id idx) (topuni_meta obs0) (wiki_meta obs0)")
      case None
      with Some Cons.prems have "scrape_targets (idx + 1) rest us cs keys = (us', cs')" by simp
      from Cons.IH [OF this Cons.prems(2)] show ?thesis
      proof
        assume "u \<in> set us" then show ?thesis ..
      next
        assume "\<exists>i<length rest. \<exists>obs. rest ! i = Some obs
          \<and> university_record (format_university_id (idx + 1 + i)) (topuni_meta obs) (wiki_meta obs) = Some u"
        then obtain i obs where "i < length rest" "rest ! i = Some obs"
          "university_record (format_university_id (idx + 1 + i)) (topuni_meta obs) (wiki_meta obs) = Some u"
          by blast
        then have "Suc i < length (t # rest) \<and> (t # rest) ! Suc i = Some obs
          \<and> university_record (format_university_id (idx + Suc i)) (topuni_meta obs) (wiki_meta obs) = Some u"
          by simp
        then show ?thesis by blast
      qed
    next
      case rec: (Some r)
      obtain n cs1 keys1 where cc:
        "collect_courses (format_university_id idx) (program_pages obs0) 0 cs keys = (n, cs1, keys1)"
        by (cases "collect_courses (format_university_id idx) (program_pages obs0) 0 cs keys") auto
      with Some rec Cons.prems
      have "scrape_targets (idx + 1) rest (us @ [r]) cs1 keys1 = (us', cs')" by simp
      from Cons.IH [OF this Cons.prems(2)] show ?thesis
      proof
        assume "u \<in> set (us @ [r])"
        then have "u \<in> set us \<or> u = r" by auto
        then show ?thesis
        proof
          assume "u \<in> set us" then show ?thesis ..
        next
          assume "u = r"
          with rec Some have "0 < length (t # rest) \<and> (t # rest) ! 0 = Some obs0
            \<and> university_record (format_university_id (idx + 0)) (topuni_meta obs0) (wiki_meta obs0) = Some u"
            by simp
          then show ?thesis by blast
        qed
      next
        assume "\<exists>i<length rest. \<exists>obs. rest ! i = Some obs
          \<and> university_record (format_university_id (idx + 1 + i)) (topuni_meta obs) (wiki_meta obs) = Some u"
        then obtain i obs where "i < length rest" "rest ! i = Some obs"
          "university_record (format_university_id (idx + 1 + i)) (topuni_meta obs) (wiki_meta obs) = Some u"
          by blast
        then have "Suc i < length (t # rest) \<and> (t # rest) ! Suc i = Some obs
          \<and> university_record (format_university_id (idx + Suc i)) (topuni_meta obs) (wiki_meta obs) = Some u"
          by simp
        then show ?thesis by blast
      qed
    qed
  qed
qed

lemma main_Some:
  assumes "main targets = Some (unis, rows)"
  obtains us cs where "scrape_targets 1 targets [] [] {} = (us, cs)"
    and "unis = clean_universities us" and "unis \<noteq> []" and "clean_courses cs \<noteq> []"
    and "rows = map (\<lambda>(i, c). c\<lparr>course_id := format_course_id (i + 1)\<rparr>)
           (enumerate 0 (filter (\<lambda>c. course_university_id c \<in> set (map university_id unis))
              (clean_courses cs)))"
proof -
  obtain us cs where sc: "scrape_targets 1 targets [] [] {} = (us, cs)"
    by (cases "scrape_targets 1 targets [] [] {}") auto
  from assms have "unis = clean_universities us \<and> unis \<noteq> [] \<and> clean_courses cs \<noteq> []
      \<and> rows = map (\<lambda>(i, c). c\<lparr>course_id := format_course_id (i + 1)\<rparr>)
           (enumerate 0 (filter (\<lambda>c. course_university_id c \<in> set (map university_id unis))
              (clean_courses cs)))"
    unfolding main_def sc by (auto simp: Let_def split: if_splits)
  with sc show ?thesis by (intro that [of us cs]) blast+
qed

lemma map_of_fst: "map (\<lambda>x. h (fst x)) ys = map h (map fst ys)"
  by (simp add: comp_def)

lemma map_of_snd: "map (\<lambda>x. h (snd x)) ys = map h (map snd ys)"
  by (simp add: comp_def)

lemma renumbered_ids:
  "map course_id (map (\<lambda>(i, c). c\<lparr>course_id := g (i + 1)\<rparr>) (enumerate 0 xs))
     = map (\<lambda>i. g (i + 1)) [0..<length xs]"
proof -
  have "map course_id (map (\<lambda>(i, c). c\<lparr>course_id := g (i + 1)\<rparr>) (enumerate 0 xs))
      = map (\<lambda>x. g (fst x + 1)) (enumerate 0 xs)"
    by (simp add: case_prod_beta comp_def)
  also have "\<dots> = map (\<lambda>i. g (i + 1)) (map fst (enumerate 0 xs))"
    by (rule map_of_fst)
  also have "map fst (enumerate 0 xs) = [0..<length xs]"
    by (simp add: map_fst_enumerate)
  finally show ?thesis .
qed

lemma renumbered_rows:
  "map (\<lambda>r. r\<lparr>course_id := []\<rparr>) (map (\<lambda>(i, c). c\<lparr>course_id := g (i + 1)\<rparr>) (enumerate 0 xs))
     = map (\<lambda>r. r\<lparr>course_id := []\<rparr>) xs"
proof -
  have "map (\<lambda>r. r\<lparr>course_id := []\<rparr>) (map (\<lambda>(i, c). c\<lparr>course_id := g (i + 1)\<rparr>) (enumerate 0 xs))
      = map (\<lambda>x. (snd x)\<lparr>course_id := []\<rparr>) (enumerate 0 xs)"
    by (simp add: case_prod_beta comp_def)
  also have "\<dots> = map (\<lambda>r. r\<lparr>course_id := []\<rparr>) (map snd (enumerate 0 xs))"
    by (rule map_of_snd)
  also have "map snd (enumerate 0 xs) = xs"
    by (rule map_snd_enumerate)
  finally show ?thesis .
qed

lemma renumbered_owner:
  "r \<in> set (map (\<lambda>(i, c). c\<lparr>course_id := g (i + 1)\<rparr>) (enumerate 0 xs)) \<Longrightarrow>
   \<exists>c\<in>set xs. course_university_id r = course_university_id c"
  by (auto simp: in_set_enumerate_eq)

lemma distinct_course_ids: "distinct (map (\<lambda>i. format_course_id (i + 1)) [0..<n])"
  by (auto simp: distinct_map inj_on_def dest: format_course_id_inj)

lemma main_referential_integrity:
  assumes "main targets = Some (unis, rows)" "r \<in> set rows"
  shows "course_university_id r \<in> university_id ` set unis"
proof -
  from assms(1) obtain us cs where
    rows: "rows = map (\<lambda>(i, c). c\<lparr>course_id := format_course_id (i + 1)\<rparr>)
           (enumerate 0 (filter (\<lambda>c. course_university_id c \<in> set (map university_id unis))
              (clean_courses cs)))"
    by (rule main_Some)
  from assms(2) obtain c where
    "c \<in> set (filter (\<lambda>c. course_university_id c \<in> set (map university_id unis)) (clean_courses cs))"
    "course_university_id r = course_university_id c"
    unfolding rows using renumbered_owner by blast
  then show ?thesis by simp
qed

lemma main_universities_from_targets:
  assumes "main targets = Some (unis, rows)" "u \<in> set unis"
  shows "\<exists>i<length targets. \<exists>obs. targets ! i = Some obs
           \<and> university_id u = format_university_id (i + 1)
           \<and> normalized_country obs = TARGET_COUNTRY"
proof -
  from assms(1) obtain us cs where sc: "scrape_targets 1 targets [] [] {} = (us, cs)"
    and unis: "unis = clean_universities us"
    by (rule main_Some)
  from assms(2) obtain raw where raw: "raw \<in> set us"
    and id: "university_id u = clean_text (Some (university_id raw))"
    unfolding unis clean_universities_def
    using drop_duplicates_subset
    by (fastforce split: if_splits)
  from scrape_targets_universities [OF sc raw]
  obtain i obs where i: "i < length targets" "targets ! i = Some obs"
    and rec: "university_record (format_university_id (1 + i)) (topuni_meta obs) (wiki_meta obs) = Some raw"
    by auto
  from university_record_retained [OF rec]
  have "university_id raw = format_university_id (1 + i)" "normalized_country obs = TARGET_COUNTRY"
    by simp_all
  with id i show ?thesis
    by (auto simp: clean_format_university_id)
qed

lemma main_skipped_absent:
  assumes "main targets = Some (unis, rows)" "i < length targets" "targets ! i = Some obs"
    "normalized_country obs \<noteq> TARGET_COUNTRY"
  shows "format_university_id (i + 1) \<notin> university_id ` set unis"
    and "format_university_id (i + 1) \<notin> course_university_id ` set rows"
proof -
  show a: "format_university_id (i + 1) \<notin> university_id ` set unis"
  proof
    assume "format_university_id (i + 1) \<in> university_id ` set unis"
    then obtain u where u: "u \<in> set unis" "university_id u = format_university_id (i + 1)" by auto
    from main_universities_from_targets [OF assms(1) u(1)]
    obtain j obs' where j: "j < length targets" "targets ! j = Some obs'"
      "university_id u = format_university_id (j + 1)" "normalized_country obs' = TARGET_COUNTRY"
      by blast
    from u(2) j(3) have "i + 1 = j + 1" by (auto dest: format_university_id_inj)
    with j assms(3,4) show False by simp
  qed
  show "format_university_id (i + 1) \<notin> course_university_id ` set rows"
    using a main_referential_integrity [OF assms(1)] by auto
qed

text \<open>
  Claim C4. The merge of a partial record of Source A (primary) with one of Source B
  (secondary) takes name, city and country from the primary unless the primary's value is
  the sentinel, and then from the secondary, so that the result is the sentinel exactly
  when both are; the website is the secondary's. The record appended for a retained
  target holds these merged values, the name and the website cleaned and city and country
  passed through \<^verbatim>\<open>smart_title_case\<close>; its website does not depend on the primary record.
  Both normalisations are idempotent, so for partial records as the extractors return them
  (names and website cleaned, cities and countries title-cased or the sentinel) the record
  holds exactly the merged values.
\<close>

theorem reconcile_field_precedence:
  "reconcile (pn, pc, pco) (sn, sc, sco, web)
     = (if pn \<noteq> NA then pn else sn,
        if pc \<noteq> NA then pc else sc,
        if pco \<noteq> NA then pco else sco,
        web)
   \<and> (pn \<noteq> NA \<longrightarrow> fst (reconcile (pn, pc, pco) (NA, sc, sco, web)) = pn)
   \<and> fst (reconcile (NA, pc, pco) (NA, sc, sco, web)) = NA
   \<and> (university_record uid (pn, pc, pco) (sn, sc, sco, web) = Some r \<longrightarrow>
        university_id r = uid
        \<and> university_name r = clean_text (Some (if pn \<noteq> NA then pn else sn))
        \<and> city r = smart_title_case (if pc \<noteq> NA then pc else sc)
        \<and> country r = smart_title_case (if pco \<noteq> NA then pco else sco)
        \<and> website r = clean_text (Some web))
   \<and> (cleaned pn \<and> cleaned sn \<and> cleaned web
        \<and> title_cased pc \<and> title_cased sc \<and> title_cased pco \<and> title_cased sco
        \<and> university_record uid (pn, pc, pco) (sn, sc, sco, web) = Some r \<longrightarrow>
        (university_name r, city r, country r, website r)
          = reconcile (pn, pc, pco) (sn, sc, sco, web))
   \<and> cleaned (clean_text v) \<and> cleaned NA
   \<and> title_cased (smart_title_case t) \<and> title_cased NA
   \<and> title_cased (fst (extract_city_country_from_wikipedia infobox))
   \<and> title_cased (snd (extract_city_country_from_wikipedia infobox))
   \<and> (university_record uid (pn, pc, pco) (sn, sc, sco, web) = Some r
        \<and> university_record uid (pn', pc', pco') (sn, sc, sco, web) = Some r' \<longrightarrow>
        website r' = website r)"
proof (intro conjI)
  show "reconcile (pn, pc, pco) (sn, sc, sco, web)
     = (if pn \<noteq> NA then pn else sn,
        if pc \<noteq> NA then pc else sc,
        if pco \<noteq> NA then pco else sco,
        web)"
    by (simp add: reconcile_def)
  show "pn \<noteq> NA \<longrightarrow> fst (reconcile (pn, pc, pco) (NA, sc, sco, web)) = pn"
    by (simp add: reconcile_def)
  show "fst (reconcile (NA, pc, pco) (NA, sc, sco, web)) = NA"
    by (simp add: reconcile_def)
  show "university_record uid (pn, pc, pco) (sn, sc, sco, web) = Some r \<longrightarrow>
        university_id r = uid
        \<and> university_name r = clean_text (Some (if pn \<noteq> NA then pn else sn))
        \<and> city r = smart_title_case (if pc \<noteq> NA then pc else sc)
        \<and> country r = smart_title_case (if pco \<noteq> NA then pco else sco)
        \<and> website r = clean_text (Some web)"
    by (auto simp: reconcile_def university_record_def Let_def split: if_splits)
  show "cleaned pn \<and> cleaned sn \<and> cleaned web
        \<and> title_cased pc \<and> title_cased sc \<and> title_cased pco \<and> title_cased sco
        \<and> university_record uid (pn, pc, pco) (sn, sc, sco, web) = Some r \<longrightarrow>
        (university_name r, city r, country r, website r)
          = reconcile (pn, pc, pco) (sn, sc, sco, web)"
    by (auto simp: reconcile_def university_record_def Let_def cleaned_def title_cased_def
        split: if_splits)
  show "cleaned (clean_text v)" by (simp add: cleaned_def clean_text_idem)
  show "cleaned NA" by (simp add: cleaned_def clean_text_NA)
  show "title_cased (smart_title_case t)" by (simp add: title_cased_def smart_title_case_idem)
  show "title_cased NA" by (simp add: title_cased_def smart_title_case_NA)
  show "title_cased (fst (extract_city_country_from_wikipedia infobox))"
    using title_cased_location by blast
  show "title_cased (snd (extract_city_country_from_wikipedia infobox))"
    using title_cased_location by blast
  show "university_record uid (pn, pc, pco) (sn, sc, sco, web) = Some r
        \<and> university_record uid (pn', pc', pco') (sn, sc, sco, web) = Some r' \<longrightarrow>
        website r' = website r"
    by (auto simp: reconcile_def university_record_def Let_def split: if_splits)
qed

theorem reconcile_field_precedence_witness:
  "reconcile (''N/A'', ''Hyderabad'', ''N/A'')
       (''Osmania University'', ''Secunderabad'', ''India'', ''https://www.osmania.ac.in'')
     = (''Osmania University'', ''Hyderabad'', ''India'', ''https://www.osmania.ac.in'')
   \<and> cleaned ''Osmania University'' \<and> cleaned ''https://www.osmania.ac.in''
   \<and> title_cased ''Hyderabad'' \<and> title_cased ''Secunderabad'' \<and> title_cased ''India''
   \<and> (\<exists>r. university_record ''U001'' (''N/A'', ''Hyderabad'', ''N/A'')
              (''Osmania University'', ''Secunderabad'', ''India'', ''https://www.osmania.ac.in'')
            = Some r
          \<and> (university_name r, city r, country r, website r)
            = (''Osmania University'', ''Hyderabad'', ''India'', ''https://www.osmania.ac.in''))
   \<and> fst (reconcile (''Hyderabad Central'', ''N/A'', ''N/A'') (''N/A'', ''N/A'', ''N/A'', ''N/A''))
     = ''Hyderabad Central''"
proof -
  define r where "r = \<lparr>university_id = ''U001'', university_name = ''Osmania University'',
             country = ''India'', city = ''Hyderabad'',
             website = ''https://www.osmania.ac.in''\<rparr>"
  have r: "university_record ''U001'' (NA, ''Hyderabad'', NA)
       (''Osmania University'', ''Secunderabad'', ''India'', ''https://www.osmania.ac.in'') = Some r"
    unfolding NA_def r_def by code_simp
  have c: "cleaned ''Osmania University''" "cleaned ''https://www.osmania.ac.in''"
    "title_cased ''Hyderabad''" "title_cased ''Secunderabad''" "title_cased ''India''"
    by code_simp+
  note inst = reconcile_field_precedence [of NA "''Hyderabad''" NA "''Osmania University''"
        "''Secunderabad''" "''India''" "''https://www.osmania.ac.in''" "''U001''" r]
  have n: "''Hyderabad'' \<noteq> NA" "''Hyderabad Central'' \<noteq> NA" by (simp_all add: NA_def)
  from inst have cn: "cleaned NA" "title_cased NA" by blast+
  from inst n have 1: "reconcile (NA, ''Hyderabad'', NA)
       (''Osmania University'', ''Secunderabad'', ''India'', ''https://www.osmania.ac.in'')
     = (''Osmania University'', ''Hyderabad'', ''India'', ''https://www.osmania.ac.in'')"
    by simp
  from inst c cn r have "(university_name r, city r, country r, website r)
      = reconcile (NA, ''Hyderabad'', NA)
          (''Osmania University'', ''Secunderabad'', ''India'', ''https://www.osmania.ac.in'')"
    by blast
  with 1 r have 2: "\<exists>r. university_record ''U001'' (NA, ''Hyderabad'', NA)
              (''Osmania University'', ''Secunderabad'', ''India'', ''https://www.osmania.ac.in'')
            = Some r
          \<and> (university_name r, city r, country r, website r)
            = (''Osmania University'', ''Hyderabad'', ''India'', ''https://www.osmania.ac.in'')"
    by (intro exI [of _ r]) (simp only: simp_thms)
  have 3: "fst (reconcile (''Hyderabad Central'', NA, NA) (NA, NA, NA, NA)) = ''Hyderabad Central''"
    using reconcile_field_precedence [of "''Hyderabad Central''" NA NA _ NA NA NA] n
    by blast
  from 1 c 2 3 show ?thesis unfolding NA_def by (simp only: simp_thms)
qed

text \<open>
  Claim C5. A target is given a university record only when the country of its merged
  record, passed through \<^verbatim>\<open>smart_title_case\<close> once more, is equal as a string to
  \<^verbatim>\<open>TARGET_COUNTRY\<close>. When the run writes its tables, every row of the Universities table
  carries the identifier of a processed target whose normalized country is the target
  country, and the identifier of a target whose normalized country differs occurs neither
  in the Universities table nor as the university of any row of the Courses table.
\<close>

theorem country_filter_retention:
  "(university_record uid (topuni_meta obs0) (wiki_meta obs0) \<noteq> None)
     = (normalized_country obs0 = TARGET_COUNTRY)
   \<and> (main targets = Some (unis, rows) \<longrightarrow>
        (\<forall>u\<in>set unis. \<exists>i<length targets. \<exists>obs. targets ! i = Some obs
            \<and> university_id u = format_university_id (i + 1)
            \<and> normalized_country obs = TARGET_COUNTRY)
        \<and> (\<forall>i<length targets. \<forall>obs.
              targets ! i = Some obs \<and> normalized_country obs \<noteq> TARGET_COUNTRY \<longrightarrow>
              format_university_id (i + 1) \<notin> university_id ` set unis
              \<and> format_university_id (i + 1) \<notin> course_university_id ` set rows))"
proof (intro conjI impI ballI allI)
  show "(university_record uid (topuni_meta obs0) (wiki_meta obs0) \<noteq> None)
     = (normalized_country obs0 = TARGET_COUNTRY)"
    by (rule university_record_iff)
next
  fix u assume "main targets = Some (unis, rows)" "u \<in> set unis"
  then show "\<exists>i<length targets. \<exists>obs. targets ! i = Some obs
            \<and> university_id u = format_university_id (i + 1)
            \<and> normalized_country obs = TARGET_COUNTRY"
    by (rule main_universities_from_targets)
next
  fix i obs
  assume m: "main targets = Some (unis, rows)" and i: "i < length targets"
    and o: "targets ! i = Some obs \<and> normalized_country obs \<noteq> TARGET_COUNTRY"
  from m i o show "format_university_id (i + 1) \<notin> university_id ` set unis"
    using main_skipped_absent(1) by blast
  from m i o show "format_university_id (i + 1) \<notin> course_university_id ` set rows"
    using main_skipped_absent(2) by blast
qed

theorem country_filter_retention_witness:
  "main mixed_country_targets =
     Some ([\<lparr>university_id = ''U002'', university_name = ''Osmania University'',
              country = ''India'', city = ''Hyderabad'',
              website = ''https://www.osmania.ac.in''\<rparr>],
           [\<lparr>course_university_id = ''U002'', course_name = ''MSc Computer Science'',
              level = ''Master'', discipline = ''N/A'', duration = ''N/A'', fees = ''N/A'',
              eligibility = ''N/A'', course_id = ''C0001''\<rparr>])
   \<and> (\<exists>obs. mixed_country_targets ! 0 = Some obs \<and> normalized_country obs = ''Nepal'')
   \<and> format_university_id (0 + 1) = ''U001''
   \<and> (\<exists>unis rows. main mixed_country_targets = Some (unis, rows)
        \<and> ''U001'' \<notin> university_id ` set unis
        \<and> ''U001'' \<notin> course_university_id ` set rows)"
proof -
  define unis where "unis = [\<lparr>university_id = ''U002'', university_name = ''Osmania University'',
              country = ''India'', city = ''Hyderabad'',
              website = ''https://www.osmania.ac.in''\<rparr>]"
  define rows where "rows = [\<lparr>course_university_id = ''U002'', course_name = ''MSc Computer Science'',
              level = ''Master'', discipline = ''N/A'', duration = ''N/A'', fees = ''N/A'',
              eligibility = ''N/A'', course_id = ''C0001''\<rparr>]"
  have m: "main mixed_country_targets = Some (unis, rows)"
    unfolding unis_def rows_def by code_simp
  obtain obs where obs: "mixed_country_targets ! 0 = Some obs"
    by (simp add: mixed_country_targets_def)
  have "normalized_country (the (mixed_country_targets ! 0)) = ''Nepal''" by code_simp
  with obs have nc: "normalized_country obs = ''Nepal''" by simp
  then have ne: "normalized_country obs \<noteq> TARGET_COUNTRY" by (simp add: TARGET_COUNTRY_def)
  have len: "0 < length mixed_country_targets" by (simp add: mixed_country_targets_def)
  have f: "format_university_id (0 + 1) = ''U001''" by code_simp
  from country_filter_retention [of _ _ mixed_country_targets unis rows] m len obs ne
  have "format_university_id (0 + 1) \<notin> university_id ` set unis
      \<and> format_university_id (0 + 1) \<notin> course_university_id ` set rows"
    by blast
  with f have "''U001'' \<notin> university_id ` set unis \<and> ''U001'' \<notin> course_university_id ` set rows"
    by simp
  then have "\<exists>unis rows. main mixed_country_targets = Some (unis, rows)
        \<and> ''U001'' \<notin> university_id ` set unis
        \<and> ''U001'' \<notin> course_university_id ` set rows"
    using m by (intro exI [of _ unis] exI [of _ rows]) simp
  moreover have "\<exists>obs. mixed_country_targets ! 0 = Some obs \<and> normalized_country obs = ''Nepal''"
    using obs nc by blast
  ultimately show ?thesis using m f unfolding unis_def rows_def by (simp only: simp_thms)
qed

text \<open>
  Claim C3. When the run writes its tables, the university of every row of the Courses
  table is the \<^verbatim>\<open>university_id\<close> of a row of the Universities table, and the course
  identifiers are, in row order, \<^verbatim>\<open>C0001\<close>, \<^verbatim>\<open>C0002\<close>, ... : the identifier of the row at
  position \<open>i\<close> (from 0) is the formatted number \<open>i + 1\<close>, so they are pairwise distinct
  and without gaps. They are assigned anew to the rows that the filter on the university
  keeps: apart from the identifiers, the table is the cleaned, deduplicated course list
  restricted to the courses of universities in the Universities table.
\<close>

theorem courses_reference_universities_contiguous_ids:
  "format_course_id 1 = ''C0001'' \<and> format_course_id 2 = ''C0002''
   \<and> (main targets = Some (unis, rows) \<longrightarrow>
        (\<forall>r\<in>set rows. course_university_id r \<in> university_id ` set unis)
        \<and> map course_id rows = map (\<lambda>i. format_course_id (i + 1)) [0..<length rows]
        \<and> distinct (map course_id rows)
        \<and> map (\<lambda>r. r\<lparr>course_id := []\<rparr>) rows
            = map (\<lambda>r. r\<lparr>course_id := []\<rparr>)
                (filter (\<lambda>c. course_university_id c \<in> university_id ` set unis)
                   (clean_courses (snd (scrape_targets 1 targets [] [] {})))))"
proof (intro conjI impI)
  show "format_course_id 1 = ''C0001''" by code_simp
  show "format_course_id 2 = ''C0002''" by code_simp
next
  assume m: "main targets = Some (unis, rows)"
  then obtain us cs where sc: "scrape_targets 1 targets [] [] {} = (us, cs)"
    and rows: "rows = map (\<lambda>(i, c). c\<lparr>course_id := format_course_id (i + 1)\<rparr>)
           (enumerate 0 (filter (\<lambda>c. course_university_id c \<in> set (map university_id unis))
              (clean_courses cs)))"
    by (rule main_Some)
  define kept where
    "kept = filter (\<lambda>c. course_university_id c \<in> set (map university_id unis)) (clean_courses cs)"
  have len: "length rows = length kept" by (simp add: rows kept_def)
  show "\<forall>r\<in>set rows. course_university_id r \<in> university_id ` set unis"
    using main_referential_integrity [OF m] by blast
  show ids: "map course_id rows = map (\<lambda>i. format_course_id (i + 1)) [0..<length rows]"
    unfolding len unfolding rows kept_def by (rule renumbered_ids)
  show "distinct (map course_id rows)"
    unfolding ids by (rule distinct_course_ids)
  show "map (\<lambda>r. r\<lparr>course_id := []\<rparr>) rows
            = map (\<lambda>r. r\<lparr>course_id := []\<rparr>)
                (filter (\<lambda>c. course_university_id c \<in> university_id ` set unis)
                   (clean_courses (snd (scrape_targets 1 targets [] [] {}))))"
  proof -
    have cs: "clean_courses (snd (scrape_targets 1 targets [] [] {})) = clean_courses cs"
      by (simp only: sc snd_conv)
    show ?thesis
      unfolding cs rows
      using renumbered_rows [of format_course_id
        "filter (\<lambda>c. course_university_id c \<in> set (map university_id unis)) (clean_courses cs)"]
      by simp
  qed
qed

theorem courses_reference_universities_contiguous_ids_witness:
  "map course_id (clean_courses (snd (scrape_targets 1 orphaned_course_targets [] [] {})))
     = [''C0001'', ''C0002'']
   \<and> map course_university_id (clean_courses (snd (scrape_targets 1 orphaned_course_targets [] [] {})))
     = [''U002'', ''U003'']
   \<and> (\<exists>unis rows. main orphaned_course_targets = Some (unis, rows)
        \<and> map university_id unis = [''U001'', ''U003'']
        \<and> map course_university_id rows = [''U003'']
        \<and> map course_id rows = [''C0001''])"
proof -
  define unis where "unis =
     [\<lparr>university_id = ''U001'', university_name = ''Top Universities'',
       country = ''India'', city = ''Hyderabad'', website = ''https://uohyd.ac.in''\<rparr>,
      \<lparr>university_id = ''U003'', university_name = ''University of Madras'',
       country = ''India'', city = ''Chennai'', website = ''https://www.unom.ac.in''\<rparr>]"
  define rows where "rows =
     [\<lparr>course_university_id = ''U003'', course_name = ''MSc Computer Science'',
       level = ''Master'', discipline = ''N/A'', duration = ''N/A'', fees = ''N/A'',
       eligibility = ''N/A'', course_id = ''C0001''\<rparr>]"
  have m: "main orphaned_course_targets = Some (unis, rows)"
    unfolding unis_def rows_def by code_simp
  have p: "map course_id (clean_courses (snd (scrape_targets 1 orphaned_course_targets [] [] {})))
     = [''C0001'', ''C0002'']"
    "map course_university_id (clean_courses (snd (scrape_targets 1 orphaned_course_targets [] [] {})))
     = [''U002'', ''U003'']"
    by code_simp+
  have f: "format_course_id 1 = ''C0001''" by code_simp
  from courses_reference_universities_contiguous_ids [of orphaned_course_targets unis rows] m
  have "map course_id rows = map (\<lambda>i. format_course_id (i + 1)) [0..<length rows]"
    by blast
  then have ids: "map course_id rows = [''C0001'']"
    using f by (simp add: rows_def)
  have own: "map university_id unis = [''U001'', ''U003'']"
    "map course_university_id rows = [''U003'']"
    by (simp_all add: unis_def rows_def)
  have "\<exists>unis rows. main orphaned_course_targets = Some (unis, rows)
        \<and> map university_id unis = [''U001'', ''U003'']
        \<and> map course_university_id rows = [''U003'']
        \<and> map course_id rows = [''C0001'']"
    by (rule exI [of _ unis], rule exI [of _ rows]) (simp only: m own ids simp_thms)
  with p show ?thesis by (simp only: simp_thms)
qed

text \<open>
  Claim C2, where the code and the claim part. The run checks that the two cleaned tables
  are not empty before it filters the courses on the universities that are left, and not
  again after it. On two targets that end up with the same name, city and country, the
  first without a course, the second university is dropped as a duplicate, its course is
  removed by the filter, and the run writes a Universities table of one row and an empty
  Courses table.
\<close>

theorem empty_courses_table_written:
  "main duplicate_profile_targets =
     Some ([\<lparr>university_id = ''U001'', university_name = ''Top Universities'',
              country = ''India'', city = ''Hyderabad'', website = ''https://uohyd.ac.in''\<rparr>],
           [])"
  by code_simp

end
